theory Spec2Isabelle
  imports Main
begin

section \<open>Orchestra: the data model (models.py)\<close>

text \<open>
  The closed sets of models.py are datatypes whose constructors carry the names of the
  Python enum members; \<open>agent_value\<close> is the \<open>.value\<close> of an \<open>AgentRole\<close>, the only
  enum value the state manager reads.
\<close>

datatype agent_role = CLAUDE | GEMINI | CODEX | COPILOT

fun agent_value :: "agent_role \<Rightarrow> string" where
  "agent_value CLAUDE = ''claude''"
| "agent_value GEMINI = ''gemini''"
| "agent_value CODEX = ''codex''"
| "agent_value COPILOT = ''copilot''"

datatype priority = LOW | NORMAL | HIGH | URGENT

datatype task_status = PENDING | CLAIMED | IN_PROGRESS | REVIEW | COMPLETED | BLOCKED

datatype message_type =
  TASK | QUESTION | RESPONSE | REVIEW_REQUEST | REVIEW_RESULT | BROADCAST | ESCALATION

text \<open>
  A \<open>datetime\<close> is a point in time. The manager only ever obtains one from the clock
  (\<open>datetime.utcnow()\<close>) and stores it, so every operation that reads the clock takes the
  reading as an argument; likewise the eight characters of a fresh \<open>uuid4\<close> are an argument
  of every operation that builds a record with a generated id.
\<close>

type_synonym datetime = int

text \<open>
  The fields of the pydantic models, in the order of their declaration. The field names
  are prefixed with the initial of the model since \<open>id\<close>, \<open>timestamp\<close>, \<open>result\<close>, ...
  occur in several models; the \<open>context\<close> dictionary of the conversation state is
  \<open>shared_context\<close>, and the method \<open>_save\<close> is \<open>save\<close>.
\<close>

record message =
  m_id :: string
  m_timestamp :: datetime
  m_from_agent :: agent_role
  m_to_agent :: "agent_role option"
  m_message_type :: message_type
  m_content :: string
  m_priority :: priority
  m_in_reply_to :: "string option"
  m_read :: bool

record task =
  t_id :: string
  t_created_at :: datetime
  t_updated_at :: datetime
  t_title :: string
  t_description :: string
  t_status :: task_status
  t_created_by :: agent_role
  t_assigned_to :: "agent_role option"
  t_claimed_by :: "agent_role option"
  t_dependencies :: "string list"
  t_result :: "string option"
  t_files_modified :: "string list"

record review_request =
  r_id :: string
  r_timestamp :: datetime
  r_from_agent :: agent_role
  r_to_agent :: agent_role
  r_task_id :: "string option"
  r_content :: string
  r_files :: "string list"
  r_verdict :: "string option"
  r_feedback :: "string option"

record vote =
  v_topic :: string
  v_options :: "string list"
  v_votes :: "string \<rightharpoonup> string"
  v_deadline :: "datetime option"
  v_result :: "string option"

record conversation_state =
  session_id :: string
  started_at :: datetime
  initial_prompt :: "string option"
  messages :: "message list"
  tasks :: "task list"
  reviews :: "review_request list"
  shared_context :: "string \<rightharpoonup> string"
  active_votes :: "vote list"
  human_intervention_requested :: bool
  escalation_reason :: "string option"

text \<open>\<open>ConversationState()\<close>: every field at its default, with a fresh id and the clock.\<close>

definition new_conversation_state :: "string \<Rightarrow> datetime \<Rightarrow> conversation_state" where
  "new_conversation_state uid now =
     \<lparr> session_id = uid, started_at = now, initial_prompt = None, messages = [],
       tasks = [], reviews = [], shared_context = Map.empty, active_votes = [],
       human_intervention_requested = False, escalation_reason = None \<rparr>"

section \<open>The state manager (state.py)\<close>

text \<open>
  A block of the human-readable transcript. \<open>_append_to_log\<close> writes a formatted string;
  the model keeps the values that the f-string interpolates, one constructor per
  call site.
\<close>

datatype log_entry =
  Log_message datetime agent_role "agent_role option" message_type string
| Log_task_created string agent_role string "agent_role option" string
| Log_task_claimed string agent_role
| Log_task_completed string agent_role string "string list"
| Log_escalation agent_role string
| Log_session string datetime string

text \<open>
  The manager: \<open>_state\<close> (absent before \<open>initialize\<close>), the state document last written
  to \<open>state.json\<close> by \<open>_save\<close> (represented by the state that was dumped), and the
  transcript \<open>conversation.md\<close> as the list of blocks appended so far.
\<close>

record state_manager =
  st :: "conversation_state option"
  state_file :: "conversation_state option"
  conversation_log :: "log_entry list"

datatype error = Uninitialized

text \<open>A method either raises (the \<open>state\<close> property before \<open>initialize\<close>) or returns a
  value and leaves the manager in a new state.\<close>

type_synonym 'a outcome = "error + ('a \<times> state_manager)"

definition save :: "state_manager \<Rightarrow> state_manager" where
  "save sm = sm\<lparr>state_file := st sm\<rparr>"

definition append_to_log :: "log_entry \<Rightarrow> state_manager \<Rightarrow> state_manager" where
  "append_to_log entry sm = sm\<lparr>conversation_log := conversation_log sm @ [entry]\<rparr>"

subsection \<open>Message operations\<close>

definition send_message ::
  "state_manager \<Rightarrow> agent_role \<Rightarrow> agent_role option \<Rightarrow> string \<Rightarrow> message_type \<Rightarrow> priority
     \<Rightarrow> string option \<Rightarrow> string \<Rightarrow> datetime \<Rightarrow> message outcome" where
  "send_message sm from_agent to_agent content message_type prio in_reply_to uid now =
     (case st sm of
        None \<Rightarrow> Inl Uninitialized
      | Some s \<Rightarrow>
          let msg = \<lparr> m_id = uid, m_timestamp = now, m_from_agent = from_agent,
                      m_to_agent = to_agent, m_message_type = message_type,
                      m_content = content, m_priority = prio,
                      m_in_reply_to = in_reply_to, m_read = False \<rparr>;
              sm1 = save (sm\<lparr>st := Some (s\<lparr>messages := messages s @ [msg]\<rparr>)\<rparr>);
              sm2 = append_to_log
                      (Log_message (m_timestamp msg) from_agent to_agent message_type content) sm1
          in Inr (msg, sm2))"

text \<open>The loop of \<open>get_inbox\<close>; \<open>acc\<close> is the list \<open>messages\<close> it appends to.\<close>

fun inbox_loop :: "message list \<Rightarrow> agent_role \<Rightarrow> bool \<Rightarrow> message list \<Rightarrow> message list" where
  "inbox_loop [] agent unread_only acc = acc"
| "inbox_loop (msg # rest) agent unread_only acc =
     (let is_for_agent = (m_to_agent msg = Some agent \<or> m_to_agent msg = None);
          is_from_self = (m_from_agent msg = agent)
      in if is_for_agent \<and> \<not> is_from_self then
           (if unread_only \<and> m_read msg then inbox_loop rest agent unread_only acc
            else inbox_loop rest agent unread_only (acc @ [msg]))
         else inbox_loop rest agent unread_only acc)"

definition get_inbox :: "state_manager \<Rightarrow> agent_role \<Rightarrow> bool \<Rightarrow> (message list) outcome" where
  "get_inbox sm agent unread_only =
     (case st sm of
        None \<Rightarrow> Inl Uninitialized
      | Some s \<Rightarrow> Inr (inbox_loop (messages s) agent unread_only [], sm))"

fun mark_read_loop :: "message list \<Rightarrow> string \<Rightarrow> message list" where
  "mark_read_loop [] message_id = []"
| "mark_read_loop (msg # rest) message_id =
     (if m_id msg = message_id then msg\<lparr>m_read := True\<rparr> # rest
      else msg # mark_read_loop rest message_id)"

definition mark_read :: "state_manager \<Rightarrow> string \<Rightarrow> agent_role \<Rightarrow> unit outcome" where
  "mark_read sm message_id agent =
     (case st sm of
        None \<Rightarrow> Inl Uninitialized
      | Some s \<Rightarrow>
          Inr ((), save (sm\<lparr>st := Some (s\<lparr>messages := mark_read_loop (messages s) message_id\<rparr>)\<rparr>)))"

subsection \<open>Task operations\<close>

definition create_task ::
  "state_manager \<Rightarrow> string \<Rightarrow> string \<Rightarrow> agent_role \<Rightarrow> agent_role option \<Rightarrow> string list option
     \<Rightarrow> string \<Rightarrow> datetime \<Rightarrow> datetime \<Rightarrow> task outcome" where
  "create_task sm title description created_by assigned_to dependencies uid now_created now_updated =
     (case st sm of
        None \<Rightarrow> Inl Uninitialized
      | Some s \<Rightarrow>
          let tsk = \<lparr> t_id = uid, t_created_at = now_created, t_updated_at = now_updated,
                      t_title = title, t_description = description, t_status = PENDING,
                      t_created_by = created_by, t_assigned_to = assigned_to,
                      t_claimed_by = None,
                      t_dependencies = (case dependencies of None \<Rightarrow> [] | Some ds \<Rightarrow> ds),
                      t_result = None, t_files_modified = [] \<rparr>;
              sm1 = save (sm\<lparr>st := Some (s\<lparr>tasks := tasks s @ [tsk]\<rparr>)\<rparr>);
              sm2 = append_to_log
                      (Log_task_created (t_id tsk) created_by title assigned_to description) sm1
          in Inr (tsk, sm2))"

text \<open>The loop of \<open>get_task\<close>: the first task of the list with the id.\<close>

fun find_task :: "task list \<Rightarrow> string \<Rightarrow> task option" where
  "find_task [] task_id = None"
| "find_task (tsk # rest) task_id =
     (if t_id tsk = task_id then Some tsk else find_task rest task_id)"

definition get_task :: "state_manager \<Rightarrow> string \<Rightarrow> (task option) outcome" where
  "get_task sm task_id =
     (case st sm of
        None \<Rightarrow> Inl Uninitialized
      | Some s \<Rightarrow> Inr (find_task (tasks s) task_id, sm))"

text \<open>
  The dependency loop of \<open>claim_task\<close>. It is true when the loop reaches its
  \<open>return None\<close>: some dependency id is found by \<open>get_task\<close> and the task found is not
  completed. An id that \<open>get_task\<close> does not find fails the test \<open>dep_task and ...\<close> and
  the loop goes on to the next id.
\<close>

fun dependency_blocks :: "task list \<Rightarrow> string list \<Rightarrow> bool" where
  "dependency_blocks all_tasks [] = False"
| "dependency_blocks all_tasks (dep_id # deps) =
     (case find_task all_tasks dep_id of
        Some dep_task \<Rightarrow>
          if t_status dep_task \<noteq> COMPLETED then True
          else dependency_blocks all_tasks deps
      | None \<Rightarrow> dependency_blocks all_tasks deps)"

text \<open>
  The outer loop of \<open>claim_task\<close> over \<open>self.state.tasks\<close>. \<open>all_tasks\<close> is the whole list
  (what \<open>get_task\<close> searches), the second argument the part of it still to visit. The
  result is \<open>None\<close> where the method returns \<open>None\<close>, and otherwise the task returned
  together with the visited part of the list after the assignment to its fields.
\<close>

fun claim_loop ::
  "task list \<Rightarrow> task list \<Rightarrow> string \<Rightarrow> agent_role \<Rightarrow> datetime \<Rightarrow> (task \<times> task list) option" where
  "claim_loop all_tasks [] task_id agent now = None"
| "claim_loop all_tasks (tsk # rest) task_id agent now =
     (if t_id tsk = task_id then
        (if t_claimed_by tsk \<noteq> None \<and> t_claimed_by tsk \<noteq> Some agent then None
         else if dependency_blocks all_tasks (t_dependencies tsk) then None
         else
           let tsk' = tsk\<lparr>t_claimed_by := Some agent, t_status := IN_PROGRESS,
                           t_updated_at := now\<rparr>
           in Some (tsk', tsk' # rest))
      else
        (case claim_loop all_tasks rest task_id agent now of
           None \<Rightarrow> None
         | Some (found, rest') \<Rightarrow> Some (found, tsk # rest')))"

definition claim_task ::
  "state_manager \<Rightarrow> string \<Rightarrow> agent_role \<Rightarrow> datetime \<Rightarrow> (task option) outcome" where
  "claim_task sm task_id agent now =
     (case st sm of
        None \<Rightarrow> Inl Uninitialized
      | Some s \<Rightarrow>
          (case claim_loop (tasks s) (tasks s) task_id agent now of
             None \<Rightarrow> Inr (None, sm)
           | Some (tsk, tasks') \<Rightarrow>
               let sm1 = save (sm\<lparr>st := Some (s\<lparr>tasks := tasks'\<rparr>)\<rparr>);
                   sm2 = append_to_log (Log_task_claimed task_id agent) sm1
               in Inr (Some tsk, sm2)))"

fun complete_loop ::
  "task list \<Rightarrow> string \<Rightarrow> agent_role \<Rightarrow> string \<Rightarrow> string list option \<Rightarrow> datetime
     \<Rightarrow> (task \<times> task list) option" where
  "complete_loop [] task_id agent result files_modified now = None"
| "complete_loop (tsk # rest) task_id agent result files_modified now =
     (if t_id tsk = task_id then
        (if t_claimed_by tsk \<noteq> Some agent then None
         else
           let tsk' = tsk\<lparr>t_status := COMPLETED, t_result := Some result,
                           t_files_modified :=
                             (case files_modified of None \<Rightarrow> [] | Some fs \<Rightarrow> fs),
                           t_updated_at := now\<rparr>
           in Some (tsk', tsk' # rest))
      else
        (case complete_loop rest task_id agent result files_modified now of
           None \<Rightarrow> None
         | Some (found, rest') \<Rightarrow> Some (found, tsk # rest')))"

definition complete_task ::
  "state_manager \<Rightarrow> string \<Rightarrow> agent_role \<Rightarrow> string \<Rightarrow> string list option \<Rightarrow> datetime
     \<Rightarrow> (task option) outcome" where
  "complete_task sm task_id agent result files_modified now =
     (case st sm of
        None \<Rightarrow> Inl Uninitialized
      | Some s \<Rightarrow>
          (case complete_loop (tasks s) task_id agent result files_modified now of
             None \<Rightarrow> Inr (None, sm)
           | Some (tsk, tasks') \<Rightarrow>
               let sm1 = save (sm\<lparr>st := Some (s\<lparr>tasks := tasks'\<rparr>)\<rparr>);
                   sm2 = append_to_log
                           (Log_task_completed task_id agent result
                              (case files_modified of None \<Rightarrow> [] | Some fs \<Rightarrow> fs)) sm1
               in Inr (Some tsk, sm2)))"

subsection \<open>Review operations\<close>

definition request_review ::
  "state_manager \<Rightarrow> agent_role \<Rightarrow> agent_role \<Rightarrow> string \<Rightarrow> string option \<Rightarrow> string list option
     \<Rightarrow> string \<Rightarrow> datetime \<Rightarrow> string \<Rightarrow> datetime \<Rightarrow> review_request outcome" where
  "request_review sm from_agent to_agent content task_id files uid now msg_uid msg_now =
     (case st sm of
        None \<Rightarrow> Inl Uninitialized
      | Some s \<Rightarrow>
          let review = \<lparr> r_id = uid, r_timestamp = now, r_from_agent = from_agent,
                         r_to_agent = to_agent, r_task_id = task_id, r_content = content,
                         r_files = (case files of None \<Rightarrow> [] | Some fs \<Rightarrow> fs),
                         r_verdict = None, r_feedback = None \<rparr>;
              sm1 = save (sm\<lparr>st := Some (s\<lparr>reviews := reviews s @ [review]\<rparr>)\<rparr>)
          in (case send_message sm1 from_agent (Some to_agent)
                     (''[REVIEW REQUEST '' @ r_id review @ '']\<newline>\<newline>'' @ content)
                     REVIEW_REQUEST HIGH None msg_uid msg_now of
                Inl e \<Rightarrow> Inl e
              | Inr (msg, sm2) \<Rightarrow> Inr (review, sm2)))"

text \<open>
  The loop of \<open>submit_review\<close>: the first review of the list that has the id and is
  addressed to the agent receives the verdict and the feedback.
\<close>

fun submit_loop ::
  "review_request list \<Rightarrow> string \<Rightarrow> agent_role \<Rightarrow> string \<Rightarrow> string
     \<Rightarrow> (review_request \<times> review_request list) option" where
  "submit_loop [] review_id agent verdict feedback = None"
| "submit_loop (review # rest) review_id agent verdict feedback =
     (if r_id review = review_id \<and> r_to_agent review = agent then
        let review' = review\<lparr>r_verdict := Some verdict, r_feedback := Some feedback\<rparr>
        in Some (review', review' # rest)
      else
        (case submit_loop rest review_id agent verdict feedback of
           None \<Rightarrow> None
         | Some (found, rest') \<Rightarrow> Some (found, review # rest')))"

definition submit_review ::
  "state_manager \<Rightarrow> string \<Rightarrow> agent_role \<Rightarrow> string \<Rightarrow> string \<Rightarrow> string \<Rightarrow> datetime
     \<Rightarrow> (review_request option) outcome" where
  "submit_review sm review_id agent verdict feedback msg_uid msg_now =
     (case st sm of
        None \<Rightarrow> Inl Uninitialized
      | Some s \<Rightarrow>
          (case submit_loop (reviews s) review_id agent verdict feedback of
             None \<Rightarrow> Inr (None, sm)
           | Some (review, reviews') \<Rightarrow>
               let sm1 = save (sm\<lparr>st := Some (s\<lparr>reviews := reviews'\<rparr>)\<rparr>)
               in (case send_message sm1 agent (Some (r_from_agent review))
                          (''[REVIEW RESULT '' @ review_id @ '']\<newline>\<newline>**Verdict:** ''
                             @ verdict @ ''\<newline>\<newline>'' @ feedback)
                          REVIEW_RESULT HIGH None msg_uid msg_now of
                     Inl e \<Rightarrow> Inl e
                   | Inr (msg, sm2) \<Rightarrow> Inr (Some review, sm2))))"

definition get_pending_reviews ::
  "state_manager \<Rightarrow> agent_role \<Rightarrow> (review_request list) outcome" where
  "get_pending_reviews sm agent =
     (case st sm of
        None \<Rightarrow> Inl Uninitialized
      | Some s \<Rightarrow>
          Inr (filter (\<lambda>r. r_to_agent r = agent \<and> r_verdict r = None) (reviews s), sm))"

subsection \<open>Context operations\<close>

definition set_context :: "state_manager \<Rightarrow> string \<Rightarrow> string \<Rightarrow> unit outcome" where
  "set_context sm key val =
     (case st sm of
        None \<Rightarrow> Inl Uninitialized
      | Some s \<Rightarrow>
          Inr ((), save (sm\<lparr>st := Some (s\<lparr>shared_context := (shared_context s)(key \<mapsto> val)\<rparr>)\<rparr>)))"

definition get_context :: "state_manager \<Rightarrow> string \<Rightarrow> (string option) outcome" where
  "get_context sm key =
     (case st sm of
        None \<Rightarrow> Inl Uninitialized
      | Some s \<Rightarrow> Inr (shared_context s key, sm))"

definition append_context :: "state_manager \<Rightarrow> string \<Rightarrow> string \<Rightarrow> unit outcome" where
  "append_context sm key val =
     (case st sm of
        None \<Rightarrow> Inl Uninitialized
      | Some s \<Rightarrow>
          let existing = (case shared_context s key of None \<Rightarrow> [] | Some old \<Rightarrow> old);
              new = (if existing \<noteq> [] then existing @ ''\<newline>'' @ val else val)
          in Inr ((), save (sm\<lparr>st := Some (s\<lparr>shared_context := (shared_context s)(key \<mapsto> new)\<rparr>)\<rparr>)))"

subsection \<open>Voting operations\<close>

text \<open>\<open>sep.join(xs)\<close> of Python.\<close>

fun join :: "string \<Rightarrow> string list \<Rightarrow> string" where
  "join sep [] = []"
| "join sep [x] = x"
| "join sep (x # y # ys) = x @ sep @ join sep (y # ys)"

definition create_vote ::
  "state_manager \<Rightarrow> string \<Rightarrow> string list \<Rightarrow> string \<Rightarrow> datetime \<Rightarrow> vote outcome" where
  "create_vote sm topic options msg_uid msg_now =
     (case st sm of
        None \<Rightarrow> Inl Uninitialized
      | Some s \<Rightarrow>
          let vt = \<lparr> v_topic = topic, v_options = options, v_votes = Map.empty,
                     v_deadline = None, v_result = None \<rparr>;
              sm1 = save (sm\<lparr>st := Some (s\<lparr>active_votes := active_votes s @ [vt]\<rparr>)\<rparr>)
          in (case send_message sm1 CLAUDE None
                     (''[VOTE] '' @ topic @ ''\<newline>\<newline>Options: '' @ join '', '' options
                        @ ''\<newline>\<newline>Please vote!'')
                     BROADCAST NORMAL None msg_uid msg_now of
                Inl e \<Rightarrow> Inl e
              | Inr (msg, sm2) \<Rightarrow> Inr (vt, sm2)))"

text \<open>
  The loop of \<open>cast_vote\<close> over \<open>self.state.active_votes\<close>. A vote with the topic whose
  options do not hold the choice ends neither the loop nor the method: the loop goes on
  to the next vote.
\<close>

fun cast_loop :: "vote list \<Rightarrow> string \<Rightarrow> agent_role \<Rightarrow> string \<Rightarrow> (vote \<times> vote list) option" where
  "cast_loop [] topic agent choice = None"
| "cast_loop (vt # rest) topic agent choice =
     (if v_topic vt = topic then
        (if choice \<in> set (v_options vt) then
           let vt' = vt\<lparr>v_votes := (v_votes vt)(agent_value agent \<mapsto> choice)\<rparr>
           in Some (vt', vt' # rest)
         else
           (case cast_loop rest topic agent choice of
              None \<Rightarrow> None
            | Some (found, rest') \<Rightarrow> Some (found, vt # rest')))
      else
        (case cast_loop rest topic agent choice of
           None \<Rightarrow> None
         | Some (found, rest') \<Rightarrow> Some (found, vt # rest')))"

definition cast_vote ::
  "state_manager \<Rightarrow> string \<Rightarrow> agent_role \<Rightarrow> string \<Rightarrow> (vote option) outcome" where
  "cast_vote sm topic agent choice =
     (case st sm of
        None \<Rightarrow> Inl Uninitialized
      | Some s \<Rightarrow>
          (case cast_loop (active_votes s) topic agent choice of
             None \<Rightarrow> Inr (None, sm)
           | Some (vt, votes') \<Rightarrow>
               Inr (Some vt, save (sm\<lparr>st := Some (s\<lparr>active_votes := votes'\<rparr>)\<rparr>))))"

subsection \<open>Escalation and session management\<close>

definition escalate_to_human ::
  "state_manager \<Rightarrow> agent_role \<Rightarrow> string \<Rightarrow> string \<Rightarrow> datetime \<Rightarrow> unit outcome" where
  "escalate_to_human sm agent reason msg_uid msg_now =
     (case st sm of
        None \<Rightarrow> Inl Uninitialized
      | Some s \<Rightarrow>
          let sm1 = save (sm\<lparr>st := Some (s\<lparr>human_intervention_requested := True,
                                              escalation_reason := Some reason\<rparr>)\<rparr>);
              sm2 = append_to_log (Log_escalation agent reason) sm1
          in (case send_message sm2 agent None
                     (''[ESCALATION] Human intervention requested: '' @ reason)
                     ESCALATION URGENT None msg_uid msg_now of
                Inl e \<Rightarrow> Inl e
              | Inr (msg, sm3) \<Rightarrow> Inr ((), sm3)))"

definition clear_escalation :: "state_manager \<Rightarrow> unit outcome" where
  "clear_escalation sm =
     (case st sm of
        None \<Rightarrow> Inl Uninitialized
      | Some s \<Rightarrow>
          Inr ((), save (sm\<lparr>st := Some (s\<lparr>human_intervention_requested := False,
                                            escalation_reason := None\<rparr>)\<rparr>)))"

definition set_initial_prompt :: "state_manager \<Rightarrow> string \<Rightarrow> unit outcome" where
  "set_initial_prompt sm prompt =
     (case st sm of
        None \<Rightarrow> Inl Uninitialized
      | Some s \<Rightarrow>
          let sm1 = save (sm\<lparr>st := Some (s\<lparr>initial_prompt := Some prompt\<rparr>)\<rparr>)
          in Inr ((), append_to_log (Log_session (session_id s) (started_at s) prompt) sm1))"

text \<open>\<open>reset\<close> does not read \<open>self.state\<close>, so it never raises; it also unlinks the transcript.\<close>

definition reset :: "state_manager \<Rightarrow> string \<Rightarrow> datetime \<Rightarrow> unit outcome" where
  "reset sm uid now =
     (let sm1 = save (sm\<lparr>st := Some (new_conversation_state uid now)\<rparr>)
      in Inr ((), sm1\<lparr>conversation_log := []\<rparr>))"

subsection \<open>Outcomes and runs\<close>

text \<open>
  A method whose return type is \<open>Optional[...]\<close> is rejected when it returns \<open>None\<close> and
  succeeds when it returns a value; raising is neither.
\<close>

definition rejected :: "('a option) outcome \<Rightarrow> bool" where
  "rejected r = (case r of Inl e \<Rightarrow> False | Inr (x, sm') \<Rightarrow> x = None)"

definition succeeded :: "('a option) outcome \<Rightarrow> bool" where
  "succeeded r = (case r of Inl e \<Rightarrow> False | Inr (x, sm') \<Rightarrow> x \<noteq> None)"

text \<open>The manager a call leaves behind.\<close>

definition after :: "'a outcome \<Rightarrow> error + state_manager" where
  "after r = (case r of Inl e \<Rightarrow> Inl e | Inr (x, sm') \<Rightarrow> Inr sm')"

text \<open>
  The calls that change the manager, \<open>reset\<close> (and \<open>initialize\<close>) apart, each with the
  arguments of the method followed by the ids and clock readings it consumes.
\<close>

datatype call =
  Send_message agent_role "agent_role option" string message_type priority "string option"
    string datetime
| Mark_read string agent_role
| Create_task string string agent_role "agent_role option" "string list option"
    string datetime datetime
| Claim_task string agent_role datetime
| Complete_task string agent_role string "string list option" datetime
| Request_review agent_role agent_role string "string option" "string list option"
    string datetime string datetime
| Submit_review string agent_role string string string datetime
| Set_context string string
| Append_context string string
| Create_vote string "string list" string datetime
| Cast_vote string agent_role string
| Escalate_to_human agent_role string string datetime
| Clear_escalation
| Set_initial_prompt string

fun exec :: "call \<Rightarrow> state_manager \<Rightarrow> error + state_manager" where
  "exec (Send_message f t c mt p irt uid now) sm = after (send_message sm f t c mt p irt uid now)"
| "exec (Mark_read mid a) sm = after (mark_read sm mid a)"
| "exec (Create_task ti d cb at deps uid n1 n2) sm = after (create_task sm ti d cb at deps uid n1 n2)"
| "exec (Claim_task tid a now) sm = after (claim_task sm tid a now)"
| "exec (Complete_task tid a res fs now) sm = after (complete_task sm tid a res fs now)"
| "exec (Request_review f t c tid fs uid now muid mnow) sm =
     after (request_review sm f t c tid fs uid now muid mnow)"
| "exec (Submit_review rid a v fb muid mnow) sm = after (submit_review sm rid a v fb muid mnow)"
| "exec (Set_context k v) sm = after (set_context sm k v)"
| "exec (Append_context k v) sm = after (append_context sm k v)"
| "exec (Create_vote topic opts muid mnow) sm = after (create_vote sm topic opts muid mnow)"
| "exec (Cast_vote topic a c) sm = after (cast_vote sm topic a c)"
| "exec (Escalate_to_human a r muid mnow) sm = after (escalate_to_human sm a r muid mnow)"
| "exec Clear_escalation sm = after (clear_escalation sm)"
| "exec (Set_initial_prompt p) sm = after (set_initial_prompt sm p)"

fun run :: "call list \<Rightarrow> state_manager \<Rightarrow> error + state_manager" where
  "run [] sm = Inr sm"
| "run (c # cs) sm = (case exec c sm of Inl e \<Rightarrow> Inl e | Inr sm' \<Rightarrow> run cs sm')"

text \<open>A manager right after \<open>initialize\<close> found no state file: a fresh state, saved.\<close>

definition fresh_manager :: "string \<Rightarrow> datetime \<Rightarrow> state_manager" where
  "fresh_manager uid now =
     \<lparr> st = Some (new_conversation_state uid now),
       state_file = Some (new_conversation_state uid now),
       conversation_log = [] \<rparr>"

text \<open>The value an \<open>Optional\<close> method returned (nothing when it raised).\<close>

definition value_of :: "('a option) outcome \<Rightarrow> 'a option" where
  "value_of r = (case r of Inl e \<Rightarrow> None | Inr (x, sm') \<Rightarrow> x)"

text \<open>The value a method returned (nothing when it raised).\<close>

definition returned :: "'a outcome \<Rightarrow> 'a option" where
  "returned r = (case r of Inl e \<Rightarrow> None | Inr (x, sm') \<Rightarrow> Some x)"

text \<open>The conversation state a call leaves in memory (none when it raised).\<close>

definition state_after :: "'a outcome \<Rightarrow> conversation_state option" where
  "state_after r = (case r of Inl e \<Rightarrow> None | Inr (x, sm') \<Rightarrow> st sm')"

text \<open>The choice that a vote records for an agent: the entry of \<open>votes\<close> under the agent's name.\<close>

definition choice_of :: "agent_role \<Rightarrow> vote \<Rightarrow> string option" where
  "choice_of agent vt = v_votes vt (agent_value agent)"

text \<open>
  Replacing the first element of a list that satisfies a test: what the loops of
  \<open>claim_task\<close>, \<open>complete_task\<close>, \<open>submit_review\<close> and \<open>cast_vote\<close> do to their list.
\<close>

fun replace_first :: "('a \<Rightarrow> bool) \<Rightarrow> 'a \<Rightarrow> 'a list \<Rightarrow> 'a list" where
  "replace_first P y [] = []"
| "replace_first P y (x # xs) = (if P x then y # xs else x # replace_first P y xs)"

text \<open>
  The manager is initialised and the task that \<open>get_task\<close> finds under the id is claimed
  by the agent and has the given dependency list.
\<close>

definition holds :: "state_manager \<Rightarrow> string \<Rightarrow> agent_role \<Rightarrow> string list \<Rightarrow> bool" where
  "holds sm task_id agent deps =
     (case st sm of
        None \<Rightarrow> False
      | Some s \<Rightarrow>
          (case find_task (tasks s) task_id of
             None \<Rightarrow> False
           | Some t \<Rightarrow> t_claimed_by t = Some agent \<and> t_dependencies t = deps))"

section \<open>Sessions used as examples\<close>

text \<open>
  Each example is the manager reached from a fresh one by a list of calls; a list that
  raised would leave an uninitialised manager, on which no call is rejected or succeeds.
\<close>

definition manager_after :: "call list \<Rightarrow> state_manager" where
  "manager_after cs =
     (case run cs (fresh_manager ''session'' 0) of
        Inr sm \<Rightarrow> sm
      | Inl e \<Rightarrow> \<lparr> st = None, state_file = None, conversation_log = [] \<rparr>)"

text \<open>A task whose only dependency names no task.\<close>

definition session_ghost :: "call list" where
  "session_ghost =
     [Create_task ''C'' ''waits for nothing'' CLAUDE None (Some [''ghost'']) ''c'' 1 1]"

text \<open>Task \<open>b\<close> depends on task \<open>a\<close>; then \<open>a\<close> is claimed, and completed, by GEMINI.\<close>

definition session_tasks :: "call list" where
  "session_tasks =
     [Create_task ''A'' ''first'' CLAUDE None None ''a'' 1 1,
      Create_task ''B'' ''second'' CLAUDE None (Some [''a'']) ''b'' 2 2]"

definition session_claimed :: "call list" where
  "session_claimed = session_tasks @ [Claim_task ''a'' GEMINI 3]"

definition session_completed :: "call list" where
  "session_completed = session_claimed @ [Complete_task ''a'' GEMINI ''done'' None 4]"

text \<open>Then \<open>b\<close> is claimed by CLAUDE, and after that GEMINI claims \<open>a\<close> once more.\<close>

definition session_held :: "call list" where
  "session_held = session_completed @ [Claim_task ''b'' CLAUDE 5]"

definition session_reopened :: "call list" where
  "session_reopened = session_held @ [Claim_task ''a'' GEMINI 6]"

text \<open>A review requested by COPILOT from CODEX, and its first verdict.\<close>

definition session_review :: "call list" where
  "session_review =
     [Request_review COPILOT CODEX ''review diff'' None None ''r1'' 1 ''m1'' 1]"

definition session_reviewed :: "call list" where
  "session_reviewed = session_review @ [Submit_review ''r1'' CODEX ''APPROVED'' ''ok'' ''m2'' 2]"

text \<open>A broadcast of CLAUDE, and a direct message of GEMINI to CLAUDE that CLAUDE has read.\<close>

definition session_messages :: "call list" where
  "session_messages =
     [Send_message CLAUDE None ''hello'' BROADCAST NORMAL None ''m1'' 1,
      Send_message GEMINI (Some CLAUDE) ''hi'' RESPONSE NORMAL (Some ''m1'') ''m2'' 2,
      Mark_read ''m2'' CLAUDE]"

text \<open>One vote on a topic, and two votes that share a topic.\<close>

definition session_vote :: "call list" where
  "session_vote = [Create_vote ''lang'' [''go'', ''rust''] ''m1'' 1]"

definition session_voted :: "call list" where
  "session_voted = session_vote @ [Cast_vote ''lang'' GEMINI ''go'']"

definition session_duplicate_votes :: "call list" where
  "session_duplicate_votes =
     [Create_vote ''lang'' [''go''] ''m1'' 1, Create_vote ''lang'' [''rust''] ''m2'' 2]"

section \<open>Facts about the loops\<close>

lemmas eval_defs = manager_after_def fresh_manager_def new_conversation_state_def
  after_def send_message_def mark_read_def create_task_def claim_task_def complete_task_def
  request_review_def submit_review_def set_context_def append_context_def create_vote_def
  cast_vote_def escalate_to_human_def clear_escalation_def set_initial_prompt_def
  get_task_def get_inbox_def save_def append_to_log_def Let_def value_of_def returned_def state_after_def choice_of_def
  rejected_def succeeded_def

lemmas session_defs = session_ghost_def session_tasks_def session_claimed_def
  session_completed_def session_held_def session_reopened_def session_review_def session_reviewed_def session_messages_def
  session_vote_def session_voted_def session_duplicate_votes_def

lemma rejected_Inr [simp]: "rejected (Inr (x, sm')) \<longleftrightarrow> x = None"
  by (simp add: rejected_def)

lemma succeeded_Inr [simp]: "succeeded (Inr (x, sm')) \<longleftrightarrow> x \<noteq> None"
  by (simp add: succeeded_def)

lemma rejected_Inl [simp]: "\<not> rejected (Inl e)"
  by (simp add: rejected_def)

lemma succeeded_Inl [simp]: "\<not> succeeded (Inl e)"
  by (simp add: succeeded_def)

lemma find_split:
  "find P xs = Some x \<Longrightarrow>
     \<exists>pre post. xs = pre @ x # post \<and> (\<forall>z\<in>set pre. \<not> P z) \<and> P x
                \<and> (\<forall>y. replace_first P y xs = pre @ y # post)"
proof (induction xs)
  case Nil
  then show ?case by simp
next
  case (Cons z zs)
  show ?case
  proof (cases "P z")
    case True
    with Cons.prems have "z = x" by simp
    with True have "z # zs = [] @ x # zs \<and> (\<forall>z\<in>set []. \<not> P z) \<and> P x
                     \<and> (\<forall>y. replace_first P y (z # zs) = [] @ y # zs)" by simp
    then show ?thesis by blast
  next
    case False
    with Cons.prems have "find P zs = Some x" by simp
    from Cons.IH[OF this] obtain pre post where
      h: "zs = pre @ x # post" "\<forall>z\<in>set pre. \<not> P z" "P x"
         "\<forall>y. replace_first P y zs = pre @ y # post" by blast
    with False have "z # zs = (z # pre) @ x # post \<and> (\<forall>z\<in>set (z # pre). \<not> P z) \<and> P x
                      \<and> (\<forall>y. replace_first P y (z # zs) = (z # pre) @ y # post)" by simp
    then show ?thesis by blast
  qed
qed

lemma find_append_first:
  "(\<forall>z\<in>set pre. \<not> P z) \<Longrightarrow> P x \<Longrightarrow> find P (pre @ x # post) = Some x"
  by (induction pre) auto

lemma find_task_find: "find_task ts tid = find (\<lambda>t. t_id t = tid) ts"
  by (induction ts) auto

lemma dependency_blocks_iff:
  "dependency_blocks all_tasks deps \<longleftrightarrow>
     (\<exists>d\<in>set deps. \<exists>dt. find_task all_tasks d = Some dt \<and> t_status dt \<noteq> COMPLETED)"
  by (induction deps) (auto split: option.splits)

lemma claim_loop_find:
  "claim_loop all_tasks ts tid a now =
     (case find_task ts tid of
        None \<Rightarrow> None
      | Some t \<Rightarrow>
          if (t_claimed_by t \<noteq> None \<and> t_claimed_by t \<noteq> Some a)
             \<or> dependency_blocks all_tasks (t_dependencies t) then None
          else Some (t\<lparr>t_claimed_by := Some a, t_status := IN_PROGRESS, t_updated_at := now\<rparr>,
                     replace_first (\<lambda>x. t_id x = tid)
                       (t\<lparr>t_claimed_by := Some a, t_status := IN_PROGRESS, t_updated_at := now\<rparr>) ts))"
  by (induction ts) (auto simp: Let_def split: option.splits)

lemma complete_loop_find:
  "complete_loop ts tid a res fs now =
     (case find_task ts tid of
        None \<Rightarrow> None
      | Some t \<Rightarrow>
          if t_claimed_by t \<noteq> Some a then None
          else Some (t\<lparr>t_status := COMPLETED, t_result := Some res,
                       t_files_modified := (case fs of None \<Rightarrow> [] | Some l \<Rightarrow> l),
                       t_updated_at := now\<rparr>,
                     replace_first (\<lambda>x. t_id x = tid)
                       (t\<lparr>t_status := COMPLETED, t_result := Some res,
                          t_files_modified := (case fs of None \<Rightarrow> [] | Some l \<Rightarrow> l),
                          t_updated_at := now\<rparr>) ts))"
  by (induction ts) (auto simp: Let_def split: option.splits)

lemma submit_loop_find:
  "submit_loop rs rid a v fb =
     (case find (\<lambda>r. r_id r = rid \<and> r_to_agent r = a) rs of
        None \<Rightarrow> None
      | Some r \<Rightarrow>
          Some (r\<lparr>r_verdict := Some v, r_feedback := Some fb\<rparr>,
                replace_first (\<lambda>r. r_id r = rid \<and> r_to_agent r = a)
                  (r\<lparr>r_verdict := Some v, r_feedback := Some fb\<rparr>) rs))"
  by (induction rs) (auto simp: Let_def split: option.splits)

lemma cast_loop_find:
  "cast_loop vs topic a c =
     (case find (\<lambda>v. v_topic v = topic \<and> c \<in> set (v_options v)) vs of
        None \<Rightarrow> None
      | Some v \<Rightarrow>
          Some (v\<lparr>v_votes := (v_votes v)(agent_value a \<mapsto> c)\<rparr>,
                replace_first (\<lambda>v. v_topic v = topic \<and> c \<in> set (v_options v))
                  (v\<lparr>v_votes := (v_votes v)(agent_value a \<mapsto> c)\<rparr>) vs))"
  by (induction vs) (auto simp: Let_def split: option.splits)

lemma inbox_loop_filter:
  "inbox_loop ms a u acc =
     acc @ filter (\<lambda>m. (m_to_agent m = Some a \<or> m_to_agent m = None) \<and> m_from_agent m \<noteq> a
                        \<and> (u \<longrightarrow> \<not> m_read m)) ms"
  by (induction ms arbitrary: acc) (auto simp: Let_def)

lemma find_is_Some_iff: "(\<exists>x. find P xs = Some x) \<longleftrightarrow> (\<exists>x\<in>set xs. P x)"
  using find_None_iff [of P xs] by (cases "find P xs") auto

lemma replace_first_append:
  "(\<forall>z\<in>set pre. \<not> P z) \<Longrightarrow> P x \<Longrightarrow> replace_first P y (pre @ x # post) = pre @ y # post"
  by (induction pre) auto

lemma single_topic_find:
  assumes "filter (\<lambda>x. v_topic x = topic) vs = [v]"
  shows "find (\<lambda>x. v_topic x = topic \<and> c \<in> set (v_options x)) vs
           = (if c \<in> set (v_options v) then Some v else None)"
  using assms
proof (induction vs)
  case Nil
  then show ?case by simp
next
  case (Cons x xs)
  show ?case
  proof (cases "v_topic x = topic")
    case True
    with Cons.prems have xv: "x = v" and none: "filter (\<lambda>x. v_topic x = topic) xs = []"
      by simp_all
    from none have "\<forall>y\<in>set xs. v_topic y \<noteq> topic"
      by (simp add: filter_empty_conv)
    then have "find (\<lambda>x. v_topic x = topic \<and> c \<in> set (v_options x)) xs = None"
      by (auto simp: find_None_iff)
    with True xv show ?thesis by simp
  next
    case False
    with Cons show ?thesis by simp
  qed
qed

lemma single_topic_replace:
  assumes "filter (\<lambda>x. v_topic x = topic) vs = [v]"
      and "c \<in> set (v_options v)" and "v_topic v' = topic"
  shows "filter (\<lambda>x. v_topic x = topic)
           (replace_first (\<lambda>x. v_topic x = topic \<and> c \<in> set (v_options x)) v' vs) = [v']"
  using assms
proof (induction vs)
  case Nil
  then show ?case by simp
next
  case (Cons x xs)
  show ?case
  proof (cases "v_topic x = topic")
    case True
    with Cons.prems have "x = v" and "filter (\<lambda>x. v_topic x = topic) xs = []"
      by simp_all
    with True Cons.prems(2,3) show ?thesis by simp
  next
    case False
    with Cons show ?thesis by simp
  qed
qed

lemma cast_vote_single:
  assumes "st sm = Some s"
      and one: "filter (\<lambda>x. v_topic x = topic) (active_votes s) = [v]"
      and valid: "choice \<in> set (v_options v)"
  shows "\<exists>sm' s'.
           cast_vote sm topic agent choice =
             Inr (Some (v\<lparr>v_votes := (v_votes v)(agent_value agent \<mapsto> choice)\<rparr>), sm')
           \<and> st sm' = Some s' \<and> state_file sm' = Some s'
           \<and> filter (\<lambda>x. v_topic x = topic) (active_votes s') =
               [v\<lparr>v_votes := (v_votes v)(agent_value agent \<mapsto> choice)\<rparr>]"
proof -
  let ?v' = "v\<lparr>v_votes := (v_votes v)(agent_value agent \<mapsto> choice)\<rparr>"
  from one have "v \<in> set (filter (\<lambda>x. v_topic x = topic) (active_votes s))"
    by simp
  then have "v_topic ?v' = topic" by simp
  from single_topic_replace[OF one valid this] assms(1) single_topic_find[OF one, of choice] valid
  show ?thesis
    by (simp add: cast_vote_def cast_loop_find save_def)
qed

lemma find_task_append:
  "find_task (xs @ ys) tid =
     (case find_task xs tid of Some t \<Rightarrow> Some t | None \<Rightarrow> find_task ys tid)"
  by (induction xs) auto

lemma find_task_replace_first:
  "t_id y = k \<Longrightarrow>
   find_task (replace_first (\<lambda>x. t_id x = k) y xs) tid =
     (if k = tid then (case find_task xs tid of None \<Rightarrow> None | Some t \<Rightarrow> Some y)
      else find_task xs tid)"
  by (induction xs) auto

lemma find_task_id: "find_task ts tid = Some t \<Longrightarrow> t_id t = tid"
  by (induction ts) (auto split: if_splits)

lemma holds_send_message:
  "holds sm tid a deps \<Longrightarrow> send_message sm f t c mt p irt uid now = Inr (m, sm')
     \<Longrightarrow> holds sm' tid a deps"
  by (auto simp: holds_def send_message_def Let_def save_def append_to_log_def
           split: option.splits)

lemma claim_loop_keeps_holder:
  "find_task ts tid = Some t \<Longrightarrow> t_claimed_by t = Some a
     \<Longrightarrow> claim_loop all_tasks ts tid' a' now = Some (t', ts')
     \<Longrightarrow> \<exists>u. find_task ts' tid = Some u \<and> t_claimed_by u = Some a
               \<and> t_dependencies u = t_dependencies t"
proof (induction ts arbitrary: ts')
  case Nil
  then show ?case by simp
next
  case (Cons x xs)
  show ?case
  proof (cases "t_id x = tid'")
    case True
    with Cons.prems show ?thesis
      by (auto simp: Let_def split: if_splits)
  next
    case False
    with Cons.prems obtain r where
      r: "claim_loop all_tasks xs tid' a' now = Some (t', r)" "ts' = x # r"
      by (auto split: option.splits)
    show ?thesis
    proof (cases "t_id x = tid")
      case True
      with Cons.prems r show ?thesis by simp
    next
      case False
      with Cons.prems have "find_task xs tid = Some t" by simp
      from Cons.IH[OF this Cons.prems(2) r(1)] False r(2) show ?thesis by simp
    qed
  qed
qed

lemma complete_loop_keeps_holder:
  "find_task ts tid = Some t \<Longrightarrow> t_claimed_by t = Some a
     \<Longrightarrow> complete_loop ts tid' a' res fs now = Some (t', ts')
     \<Longrightarrow> \<exists>u. find_task ts' tid = Some u \<and> t_claimed_by u = Some a
               \<and> t_dependencies u = t_dependencies t"
proof (induction ts arbitrary: ts')
  case Nil
  then show ?case by simp
next
  case (Cons x xs)
  show ?case
  proof (cases "t_id x = tid'")
    case True
    with Cons.prems show ?thesis
      by (auto simp: Let_def split: if_splits)
  next
    case False
    with Cons.prems obtain r where
      r: "complete_loop xs tid' a' res fs now = Some (t', r)" "ts' = x # r"
      by (auto split: option.splits)
    show ?thesis
    proof (cases "t_id x = tid")
      case True
      with Cons.prems r show ?thesis by simp
    next
      case False
      with Cons.prems have "find_task xs tid = Some t" by simp
      from Cons.IH[OF this Cons.prems(2) r(1)] False r(2) show ?thesis by simp
    qed
  qed
qed

lemma holds_claim_task:
  assumes "holds sm tid a deps" and "claim_task sm tid' a' now = Inr (r, sm')"
  shows "holds sm' tid a deps"
proof -
  from assms(1) obtain s t where
    s: "st sm = Some s" and t: "find_task (tasks s) tid = Some t"
      "t_claimed_by t = Some a" "t_dependencies t = deps"
    by (auto simp: holds_def split: option.splits)
  show ?thesis
  proof (cases "claim_loop (tasks s) (tasks s) tid' a' now")
    case None
    with assms(2) s have "sm' = sm" by (simp add: claim_task_def)
    with assms(1) show ?thesis by simp
  next
    case (Some p)
    obtain t' ts' where p: "p = (t', ts')" by (cases p)
    from claim_loop_keeps_holder[OF t(1) t(2) Some[unfolded p]] obtain u where
      "find_task ts' tid = Some u" "t_claimed_by u = Some a" "t_dependencies u = t_dependencies t"
      by blast
    with assms(2) s Some p t(3) show ?thesis
      by (auto simp: holds_def claim_task_def Let_def save_def append_to_log_def)
  qed
qed

lemma holds_complete_task:
  assumes "holds sm tid a deps" and "complete_task sm tid' a' res fs now = Inr (r, sm')"
  shows "holds sm' tid a deps"
proof -
  from assms(1) obtain s t where
    s: "st sm = Some s" and t: "find_task (tasks s) tid = Some t"
      "t_claimed_by t = Some a" "t_dependencies t = deps"
    by (auto simp: holds_def split: option.splits)
  show ?thesis
  proof (cases "complete_loop (tasks s) tid' a' res fs now")
    case None
    with assms(2) s have "sm' = sm" by (simp add: complete_task_def)
    with assms(1) show ?thesis by simp
  next
    case (Some p)
    obtain t' ts' where p: "p = (t', ts')" by (cases p)
    from complete_loop_keeps_holder[OF t(1) t(2) Some[unfolded p]] obtain u where
      "find_task ts' tid = Some u" "t_claimed_by u = Some a" "t_dependencies u = t_dependencies t"
      by blast
    with assms(2) s Some p t(3) show ?thesis
      by (auto simp: holds_def complete_task_def Let_def save_def append_to_log_def)
  qed
qed

lemma holds_exec:
  assumes "holds sm tid a deps" and "exec c sm = Inr sm'"
  shows "holds sm' tid a deps"
proof (cases c)
  case (Send_message f t c mt p irt uid now)
  with assms show ?thesis
    by (auto simp: after_def split: sum.splits dest: holds_send_message)
next
  case (Mark_read mid ag)
  with assms show ?thesis
    by (auto simp: after_def holds_def mark_read_def save_def split: option.splits)
next
  case (Create_task ti d cb at ds uid n1 n2)
  with assms show ?thesis
    by (auto simp: after_def holds_def create_task_def save_def append_to_log_def Let_def
                   find_task_append split: option.splits)
next
  case (Claim_task tid' a' now)
  with assms show ?thesis
    by (auto simp: after_def split: sum.splits dest: holds_claim_task)
next
  case (Complete_task tid' a' res fs now)
  with assms show ?thesis
    by (auto simp: after_def split: sum.splits dest: holds_complete_task)
next
  case (Request_review f t c ti fs uid now muid mnow)
  with assms show ?thesis
    by (auto simp: after_def holds_def request_review_def send_message_def save_def
                   append_to_log_def Let_def split: option.splits)
next
  case (Submit_review rid ag v fb muid mnow)
  with assms show ?thesis
    by (auto simp: after_def holds_def submit_review_def send_message_def save_def
                   append_to_log_def Let_def split: option.splits)
next
  case (Set_context k v)
  with assms show ?thesis
    by (auto simp: after_def holds_def set_context_def save_def split: option.splits)
next
  case (Append_context k v)
  with assms show ?thesis
    by (auto simp: after_def holds_def append_context_def save_def Let_def split: option.splits)
next
  case (Create_vote topic opts muid mnow)
  with assms show ?thesis
    by (auto simp: after_def holds_def create_vote_def send_message_def save_def
                   append_to_log_def Let_def split: option.splits)
next
  case (Cast_vote topic ag ch)
  with assms show ?thesis
    by (auto simp: after_def holds_def cast_vote_def save_def split: option.splits)
next
  case (Escalate_to_human ag r muid mnow)
  with assms show ?thesis
    by (auto simp: after_def holds_def escalate_to_human_def send_message_def save_def
                   append_to_log_def Let_def split: option.splits)
next
  case Clear_escalation
  with assms show ?thesis
    by (auto simp: after_def holds_def clear_escalation_def save_def split: option.splits)
next
  case (Set_initial_prompt p)
  with assms show ?thesis
    by (auto simp: after_def holds_def set_initial_prompt_def save_def append_to_log_def Let_def
             split: option.splits)
qed

lemma holds_run:
  "holds sm tid a deps \<Longrightarrow> run cs sm = Inr sm' \<Longrightarrow> holds sm' tid a deps"
proof (induction cs arbitrary: sm)
  case Nil
  then show ?case by simp
next
  case (Cons c cs)
  from Cons.prems(2) obtain sm1 where e: "exec c sm = Inr sm1" and r: "run cs sm1 = Inr sm'"
    by (auto split: sum.splits)
  from holds_exec[OF Cons.prems(1) e] have "holds sm1 tid a deps" .
  from Cons.IH[OF this r] show ?case .
qed

lemma claim_loop_establishes:
  "claim_loop all_tasks ts tid a now = Some (t', ts')
     \<Longrightarrow> find_task ts' tid = Some t' \<and> t_claimed_by t' = Some a"
proof (induction ts arbitrary: ts')
  case Nil
  then show ?case by simp
next
  case (Cons x xs)
  show ?case
  proof (cases "t_id x = tid")
    case True
    with Cons.prems show ?thesis
      by (auto simp: Let_def split: if_splits)
  next
    case False
    with Cons.prems obtain r where
      r: "claim_loop all_tasks xs tid a now = Some (t', r)" "ts' = x # r"
      by (auto split: option.splits)
    from Cons.IH[OF r(1)] False r(2) show ?thesis by simp
  qed
qed

lemma claim_task_establishes:
  assumes "claim_task sm tid a now = Inr (Some t, sm1)"
  shows "holds sm1 tid a (t_dependencies t)"
proof -
  from assms obtain s where s: "st sm = Some s"
    by (auto simp: claim_task_def split: option.splits)
  with assms obtain ts' where
    l: "claim_loop (tasks s) (tasks s) tid a now = Some (t, ts')"
    and sm1: "st sm1 = Some (s\<lparr>tasks := ts'\<rparr>)"
    by (auto simp: claim_task_def Let_def save_def append_to_log_def split: option.splits)
  from claim_loop_establishes[OF l] sm1 show ?thesis
    by (simp add: holds_def)
qed

section \<open>Claiming a task: the dependency gate\<close>

text \<open>
  C1, as the code has it. With the manager initialised, \<open>claim_task\<close> succeeds exactly
  when \<open>get_task\<close> finds the task, the task is unclaimed or claimed by the calling agent,
  and every dependency id that \<open>get_task\<close> resolves to a task resolves to a completed one;
  in every other case it is rejected. So a dependency that resolves to a task that is
  not completed rejects the claim, while a dependency id that resolves to no task is
  passed over and does not block.
\<close>

theorem claim_task_dependency_gate:
  assumes "st sm = Some s"
  shows "(succeeded (claim_task sm task_id agent now) \<longleftrightarrow>
            (\<exists>t. find_task (tasks s) task_id = Some t
                \<and> (t_claimed_by t = None \<or> t_claimed_by t = Some agent)
                \<and> (\<forall>d\<in>set (t_dependencies t). \<forall>dt.
                      find_task (tasks s) d = Some dt \<longrightarrow> t_status dt = COMPLETED)))
       \<and> (rejected (claim_task sm task_id agent now) \<longleftrightarrow>
            \<not> succeeded (claim_task sm task_id agent now))"
  using assms
  by (auto simp: claim_task_def claim_loop_find dependency_blocks_iff Let_def
           split: option.splits)

text \<open>
  In the session where \<open>b\<close> depends on \<open>a\<close>: while \<open>a\<close> is pending the claim of \<open>b\<close> is
  rejected, and once \<open>a\<close> is completed it succeeds.
\<close>

theorem claim_task_dependency_gate_witness:
  "st (manager_after session_tasks) \<noteq> None
   \<and> rejected (claim_task (manager_after session_tasks) ''b'' CLAUDE 5)
   \<and> st (manager_after session_completed) \<noteq> None
   \<and> succeeded (claim_task (manager_after session_completed) ''b'' CLAUDE 5)"
proof -
  have h1: "st (manager_after session_tasks) = Some (the (st (manager_after session_tasks)))"
    by (simp add: eval_defs session_defs)
  have h2: "st (manager_after session_completed)
              = Some (the (st (manager_after session_completed)))"
    by (simp add: eval_defs session_defs)
  have t1: "tasks (the (st (manager_after session_tasks))) =
              [\<lparr>t_id = ''a'', t_created_at = 1, t_updated_at = 1, t_title = ''A'',
                t_description = ''first'', t_status = PENDING, t_created_by = CLAUDE,
                t_assigned_to = None, t_claimed_by = None, t_dependencies = [],
                t_result = None, t_files_modified = []\<rparr>,
               \<lparr>t_id = ''b'', t_created_at = 2, t_updated_at = 2, t_title = ''B'',
                t_description = ''second'', t_status = PENDING, t_created_by = CLAUDE,
                t_assigned_to = None, t_claimed_by = None, t_dependencies = [''a''],
                t_result = None, t_files_modified = []\<rparr>]"
    by (simp add: eval_defs session_defs)
  have t2: "tasks (the (st (manager_after session_completed))) =
              [\<lparr>t_id = ''a'', t_created_at = 1, t_updated_at = 4, t_title = ''A'',
                t_description = ''first'', t_status = COMPLETED, t_created_by = CLAUDE,
                t_assigned_to = None, t_claimed_by = Some GEMINI, t_dependencies = [],
                t_result = Some ''done'', t_files_modified = []\<rparr>,
               \<lparr>t_id = ''b'', t_created_at = 2, t_updated_at = 2, t_title = ''B'',
                t_description = ''second'', t_status = PENDING, t_created_by = CLAUDE,
                t_assigned_to = None, t_claimed_by = None, t_dependencies = [''a''],
                t_result = None, t_files_modified = []\<rparr>]"
    by (simp add: eval_defs session_defs)
  have "rejected (claim_task (manager_after session_tasks) ''b'' CLAUDE 5)"
    using claim_task_dependency_gate [OF h1, of "''b''" CLAUDE 5] by (simp add: t1)
  moreover have "succeeded (claim_task (manager_after session_completed) ''b'' CLAUDE 5)"
    using claim_task_dependency_gate [OF h2, of "''b''" CLAUDE 5] by (simp add: t2)
  ultimately show ?thesis using h1 h2 by auto
qed

text \<open>
  C1 as stated fails: the only dependency of task \<open>c\<close> is an id that \<open>get_task\<close> does not
  resolve, and the claim of \<open>c\<close> succeeds.
\<close>

theorem claim_task_unresolved_dependency_counterexample:
  "value_of (get_task (manager_after session_ghost) ''c'') \<noteq> None
   \<and> map_option t_dependencies (value_of (get_task (manager_after session_ghost) ''c''))
       = Some [''ghost'']
   \<and> returned (get_task (manager_after session_ghost) ''ghost'') = Some None
   \<and> succeeded (claim_task (manager_after session_ghost) ''c'' GEMINI 2)"
  by (simp add: eval_defs session_defs)

section \<open>Claim exclusivity\<close>

text \<open>
  C2, as the code has it. Once \<open>claim_task\<close> has succeeded for a task and an agent, then
  after any list of further calls other than \<open>reset\<close> the manager is initialised and
  holds a state in which every claim of the task by another agent is rejected; a claim
  of the task by the same agent succeeds exactly when every dependency id of the task
  that resolves to a task resolves to a completed one in that state. Right after the
  first claim, for a task that is not among its own dependencies, the same agent's claim
  succeeds.
\<close>

theorem claim_exclusive:
  assumes "claim_task sm task_id a now = Inr (Some t, sm1)"
      and "run cs sm1 = Inr sm2"
  shows "\<exists>s2. st sm2 = Some s2
           \<and> (\<forall>b now'. b \<noteq> a \<longrightarrow> rejected (claim_task sm2 task_id b now'))
           \<and> (\<forall>now'. succeeded (claim_task sm2 task_id a now') \<longleftrightarrow>
                 (\<forall>d\<in>set (t_dependencies t). \<forall>dt.
                    find_task (tasks s2) d = Some dt \<longrightarrow> t_status dt = COMPLETED))
           \<and> (cs = [] \<and> task_id \<notin> set (t_dependencies t) \<longrightarrow>
                 (\<forall>now'. succeeded (claim_task sm2 task_id a now')))"
proof -
  from claim_task_establishes[OF assms(1)] have "holds sm1 task_id a (t_dependencies t)" .
  from holds_run[OF this assms(2)] obtain s2 u where
    s2: "st sm2 = Some s2" and u: "find_task (tasks s2) task_id = Some u"
      "t_claimed_by u = Some a" "t_dependencies u = t_dependencies t"
    by (auto simp: holds_def split: option.splits)
  have excl: "rejected (claim_task sm2 task_id b now')" if "b \<noteq> a" for b now'
    using s2 u that by (simp add: claim_task_def claim_loop_find)
  have again: "succeeded (claim_task sm2 task_id a now') \<longleftrightarrow>
                 (\<forall>d\<in>set (t_dependencies t). \<forall>dt.
                    find_task (tasks s2) d = Some dt \<longrightarrow> t_status dt = COMPLETED)" for now'
    using s2 u by (auto simp: claim_task_def claim_loop_find dependency_blocks_iff)
  have imm: "succeeded (claim_task sm2 task_id a now')"
    if "cs = [] \<and> task_id \<notin> set (t_dependencies t)" for now'
  proof -
    from that assms(2) have eq: "sm2 = sm1" by simp
    from assms(1) obtain s where s: "st sm = Some s"
      by (auto simp: claim_task_def split: option.splits)
    from assms(1) s obtain t0 where
      t0: "find_task (tasks s) task_id = Some t0"
          "\<not> dependency_blocks (tasks s) (t_dependencies t0)"
          "t = t0\<lparr>t_claimed_by := Some a, t_status := IN_PROGRESS, t_updated_at := now\<rparr>"
          "st sm1 = Some (s\<lparr>tasks := replace_first (\<lambda>x. t_id x = task_id) t (tasks s)\<rparr>)"
      by (auto simp: claim_task_def claim_loop_find Let_def save_def append_to_log_def
               split: option.splits if_splits)
    from t0(1,3) have id: "t_id t = task_id" by (simp add: find_task_id)
    from t0(4) s2 eq
    have "s2 = s\<lparr>tasks := replace_first (\<lambda>x. t_id x = task_id) t (tasks s)\<rparr>"
      by simp
    then have ts2: "tasks s2 = replace_first (\<lambda>x. t_id x = task_id) t (tasks s)"
      by simp
    have "t_status dt = COMPLETED"
      if "d \<in> set (t_dependencies t)" "find_task (tasks s2) d = Some dt" for d dt
    proof -
      from that(1) \<open>cs = [] \<and> task_id \<notin> set (t_dependencies t)\<close> have "task_id \<noteq> d" by auto
      with that(2) have "find_task (tasks s) d = Some dt"
        by (simp add: ts2 find_task_replace_first[OF id])
      with t0(2,3) that(1) show ?thesis
        by (auto simp: dependency_blocks_iff)
    qed
    with again show ?thesis by blast
  qed
  from s2 excl again imm show ?thesis by blast
qed

text \<open>
  CLAUDE claims \<open>b\<close>, whose dependency \<open>a\<close> is completed. Right afterwards the claim of
  GEMINI is rejected and a second claim of CLAUDE succeeds; after GEMINI has claimed \<open>a\<close>
  again, the claim of CODEX is still rejected.
\<close>

theorem claim_exclusive_witness:
  "succeeded (claim_task (manager_after session_completed) ''b'' CLAUDE 5)
   \<and> rejected (claim_task (manager_after session_held) ''b'' GEMINI 9)
   \<and> succeeded (claim_task (manager_after session_held) ''b'' CLAUDE 9)
   \<and> rejected (claim_task (manager_after session_reopened) ''b'' CODEX 9)"
proof -
  let ?b = "\<lparr>t_id = ''b'', t_created_at = 2, t_updated_at = 5, t_title = ''B'',
             t_description = ''second'', t_status = IN_PROGRESS, t_created_by = CLAUDE,
             t_assigned_to = None, t_claimed_by = Some CLAUDE, t_dependencies = [''a''],
             t_result = None, t_files_modified = []\<rparr>"
  have c: "claim_task (manager_after session_completed) ''b'' CLAUDE 5
             = Inr (Some ?b, manager_after session_held)"
    by (simp add: eval_defs session_defs)
  have r0: "run [] (manager_after session_held) = Inr (manager_after session_held)"
    by simp
  have r1: "run [Claim_task ''a'' GEMINI 6] (manager_after session_held)
              = Inr (manager_after session_reopened)"
    by (simp add: eval_defs session_defs)
  have first: "succeeded (claim_task (manager_after session_completed) ''b'' CLAUDE 5)"
    by (simp add: c)
  from claim_exclusive [OF c r0]
  have other: "rejected (claim_task (manager_after session_held) ''b'' GEMINI 9)"
    and same: "succeeded (claim_task (manager_after session_held) ''b'' CLAUDE 9)"
    by auto
  from claim_exclusive [OF c r1]
  have later: "rejected (claim_task (manager_after session_reopened) ''b'' CODEX 9)"
    by auto
  from first other same later show ?thesis by simp
qed

text \<open>
  C2 as stated fails in its last part. CLAUDE claims \<open>b\<close> while its dependency \<open>a\<close> is
  completed; GEMINI, who holds \<open>a\<close>, then claims \<open>a\<close> again, which puts \<open>a\<close> back in
  progress; the next claim of \<open>b\<close> by CLAUDE is rejected.
\<close>

theorem reclaim_after_dependency_reopened_counterexample:
  "succeeded (claim_task (manager_after session_completed) ''b'' CLAUDE 5)
   \<and> after (claim_task (manager_after session_completed) ''b'' CLAUDE 5)
       = Inr (manager_after session_held)
   \<and> succeeded (claim_task (manager_after session_held) ''a'' GEMINI 6)
   \<and> after (claim_task (manager_after session_held) ''a'' GEMINI 6)
       = Inr (manager_after session_reopened)
   \<and> rejected (claim_task (manager_after session_reopened) ''b'' CLAUDE 7)"
  by (simp add: eval_defs session_defs)

section \<open>Completing a task\<close>

text \<open>
  C3. With the manager initialised, \<open>complete_task\<close> is rejected when \<open>get_task\<close> finds no
  task with the id, and when the task found has a \<open>claimed_by\<close> other than the calling
  agent, which includes a task that nobody has claimed. When the task found is claimed by
  the calling agent the call returns the task with status \<open>completed\<close>, the result and the
  list of modified files (empty when none is given) stored on it, and that task is the one
  \<open>get_task\<close> finds in the state that is kept and saved.
\<close>

theorem complete_task_ownership:
  assumes "st sm = Some s"
  shows "(find_task (tasks s) task_id = None \<longrightarrow>
            rejected (complete_task sm task_id agent res files now))
       \<and> (\<forall>t. find_task (tasks s) task_id = Some t \<and> t_claimed_by t \<noteq> Some agent \<longrightarrow>
            rejected (complete_task sm task_id agent res files now))
       \<and> (\<forall>t. find_task (tasks s) task_id = Some t \<and> t_claimed_by t = Some agent \<longrightarrow>
            (\<exists>sm' s'.
               complete_task sm task_id agent res files now =
                 Inr (Some (t\<lparr>t_status := COMPLETED, t_result := Some res,
                              t_files_modified := (case files of None \<Rightarrow> [] | Some fs \<Rightarrow> fs),
                              t_updated_at := now\<rparr>), sm')
               \<and> st sm' = Some s' \<and> state_file sm' = Some s'
               \<and> find_task (tasks s') task_id =
                   Some (t\<lparr>t_status := COMPLETED, t_result := Some res,
                            t_files_modified := (case files of None \<Rightarrow> [] | Some fs \<Rightarrow> fs),
                            t_updated_at := now\<rparr>)))"
proof (intro conjI allI impI)
  assume "find_task (tasks s) task_id = None"
  with assms show "rejected (complete_task sm task_id agent res files now)"
    by (simp add: complete_task_def complete_loop_find)
next
  fix t assume "find_task (tasks s) task_id = Some t \<and> t_claimed_by t \<noteq> Some agent"
  with assms show "rejected (complete_task sm task_id agent res files now)"
    by (simp add: complete_task_def complete_loop_find)
next
  fix t assume h: "find_task (tasks s) task_id = Some t \<and> t_claimed_by t = Some agent"
  let ?t' = "t\<lparr>t_status := COMPLETED, t_result := Some res,
                t_files_modified := (case files of None \<Rightarrow> [] | Some fs \<Rightarrow> fs),
                t_updated_at := now\<rparr>"
  from h have "find (\<lambda>x. t_id x = task_id) (tasks s) = Some t"
    by (simp add: find_task_find)
  from find_split[OF this] obtain pre post where
    d: "tasks s = pre @ t # post" "\<forall>z\<in>set pre. t_id z \<noteq> task_id" "t_id t = task_id"
       "\<forall>y. replace_first (\<lambda>x. t_id x = task_id) y (tasks s) = pre @ y # post"
    by blast
  have "find_task (pre @ ?t' # post) task_id = Some ?t'"
    using d(2,3) by (simp add: find_task_find find_append_first)
  with assms h d(4)
  show "\<exists>sm' s'. complete_task sm task_id agent res files now = Inr (Some ?t', sm')
               \<and> st sm' = Some s' \<and> state_file sm' = Some s'
               \<and> find_task (tasks s') task_id = Some ?t'"
    by (simp add: complete_task_def complete_loop_find Let_def save_def append_to_log_def)
qed

text \<open>
  With \<open>a\<close> claimed by GEMINI and \<open>b\<close> unclaimed: completing a task that does not exist,
  \<open>a\<close> as CLAUDE, or \<open>b\<close> as GEMINI is rejected; completing \<open>a\<close> as GEMINI succeeds and
  stores the status, the result and the files.
\<close>

theorem complete_task_ownership_witness:
  "st (manager_after session_claimed) \<noteq> None
   \<and> rejected (complete_task (manager_after session_claimed) ''zzz'' GEMINI ''done'' None 9)
   \<and> rejected (complete_task (manager_after session_claimed) ''a'' CLAUDE ''done'' None 9)
   \<and> rejected (complete_task (manager_after session_claimed) ''b'' GEMINI ''done'' None 9)
   \<and> map_option t_status
        (value_of (complete_task (manager_after session_claimed) ''a'' GEMINI ''done''
                     (Some [''f.py'']) 9)) = Some COMPLETED
   \<and> map_option t_result
        (value_of (complete_task (manager_after session_claimed) ''a'' GEMINI ''done''
                     (Some [''f.py'']) 9)) = Some (Some ''done'')
   \<and> map_option t_files_modified
        (value_of (complete_task (manager_after session_claimed) ''a'' GEMINI ''done''
                     (Some [''f.py'']) 9)) = Some [''f.py'']"
proof -
  have h: "st (manager_after session_claimed) = Some (the (st (manager_after session_claimed)))"
    by (simp add: eval_defs session_defs)
  have ts: "tasks (the (st (manager_after session_claimed))) =
              [\<lparr>t_id = ''a'', t_created_at = 1, t_updated_at = 3, t_title = ''A'',
                t_description = ''first'', t_status = IN_PROGRESS, t_created_by = CLAUDE,
                t_assigned_to = None, t_claimed_by = Some GEMINI, t_dependencies = [],
                t_result = None, t_files_modified = []\<rparr>,
               \<lparr>t_id = ''b'', t_created_at = 2, t_updated_at = 2, t_title = ''B'',
                t_description = ''second'', t_status = PENDING, t_created_by = CLAUDE,
                t_assigned_to = None, t_claimed_by = None, t_dependencies = [''a''],
                t_result = None, t_files_modified = []\<rparr>]"
    by (simp add: eval_defs session_defs)
  have n: "st (manager_after session_claimed) \<noteq> None"
    using h by auto
  have r1: "rejected (complete_task (manager_after session_claimed) ''zzz'' GEMINI ''done'' None 9)"
    using complete_task_ownership [OF h, of "''zzz''" GEMINI "''done''" None 9]
    by (simp add: ts)
  have r2: "rejected (complete_task (manager_after session_claimed) ''a'' CLAUDE ''done'' None 9)"
    using complete_task_ownership [OF h, of "''a''" CLAUDE "''done''" None 9]
    by (simp add: ts)
  have r3: "rejected (complete_task (manager_after session_claimed) ''b'' GEMINI ''done'' None 9)"
    using complete_task_ownership [OF h, of "''b''" GEMINI "''done''" None 9]
    by (simp add: ts)
  have ok: "map_option t_status
              (value_of (complete_task (manager_after session_claimed) ''a'' GEMINI ''done''
                           (Some [''f.py'']) 9)) = Some COMPLETED
          \<and> map_option t_result
              (value_of (complete_task (manager_after session_claimed) ''a'' GEMINI ''done''
                           (Some [''f.py'']) 9)) = Some (Some ''done'')
          \<and> map_option t_files_modified
              (value_of (complete_task (manager_after session_claimed) ''a'' GEMINI ''done''
                           (Some [''f.py'']) 9)) = Some [''f.py'']"
    using complete_task_ownership [OF h, of "''a''" GEMINI "''done''" "Some [''f.py'']" 9]
    by (auto simp: ts value_of_def)
  from n r1 r2 r3 ok show ?thesis by simp
qed

section \<open>Submitting a review\<close>

text \<open>
  C4, as the code has it. With the manager initialised, \<open>submit_review\<close> succeeds exactly
  when some review has the id and is addressed to the calling agent, and is rejected
  otherwise, so for the requester and any other agent that is not the \<open>to_agent\<close>. On
  success the first such review receives the verdict and the feedback whatever verdict
  it held before: a verdict already set is replaced.
\<close>

theorem submit_review_gate:
  assumes "st sm = Some s"
  shows "(succeeded (submit_review sm review_id agent verdict feedback uid now) \<longleftrightarrow>
            (\<exists>r\<in>set (reviews s). r_id r = review_id \<and> r_to_agent r = agent))
       \<and> (rejected (submit_review sm review_id agent verdict feedback uid now) \<longleftrightarrow>
            \<not> (\<exists>r\<in>set (reviews s). r_id r = review_id \<and> r_to_agent r = agent))
       \<and> (\<forall>r. find (\<lambda>r. r_id r = review_id \<and> r_to_agent r = agent) (reviews s) = Some r \<longrightarrow>
            (\<exists>sm' s'.
               submit_review sm review_id agent verdict feedback uid now =
                 Inr (Some (r\<lparr>r_verdict := Some verdict, r_feedback := Some feedback\<rparr>), sm')
               \<and> st sm' = Some s'
               \<and> find (\<lambda>r. r_id r = review_id \<and> r_to_agent r = agent) (reviews s') =
                   Some (r\<lparr>r_verdict := Some verdict, r_feedback := Some feedback\<rparr>)))"
proof (intro conjI allI impI)
  show "succeeded (submit_review sm review_id agent verdict feedback uid now) \<longleftrightarrow>
          (\<exists>r\<in>set (reviews s). r_id r = review_id \<and> r_to_agent r = agent)"
    using assms find_is_Some_iff [of "\<lambda>r. r_id r = review_id \<and> r_to_agent r = agent" "reviews s"]
    by (cases "find (\<lambda>r. r_id r = review_id \<and> r_to_agent r = agent) (reviews s)")
       (auto simp: submit_review_def submit_loop_find send_message_def Let_def save_def)
next
  show "rejected (submit_review sm review_id agent verdict feedback uid now) \<longleftrightarrow>
          \<not> (\<exists>r\<in>set (reviews s). r_id r = review_id \<and> r_to_agent r = agent)"
    using assms find_is_Some_iff [of "\<lambda>r. r_id r = review_id \<and> r_to_agent r = agent" "reviews s"]
    by (cases "find (\<lambda>r. r_id r = review_id \<and> r_to_agent r = agent) (reviews s)")
       (auto simp: submit_review_def submit_loop_find send_message_def Let_def save_def)
next
  fix r assume f: "find (\<lambda>r. r_id r = review_id \<and> r_to_agent r = agent) (reviews s) = Some r"
  let ?P = "\<lambda>r. r_id r = review_id \<and> r_to_agent r = agent"
  let ?r' = "r\<lparr>r_verdict := Some verdict, r_feedback := Some feedback\<rparr>"
  from find_split[OF f] obtain pre post where
    d: "reviews s = pre @ r # post" "\<forall>z\<in>set pre. \<not> ?P z" "?P r"
       "\<forall>y. replace_first ?P y (reviews s) = pre @ y # post"
    by blast
  have "find ?P (pre @ ?r' # post) = Some ?r'"
    using d(2,3) by (intro find_append_first) simp_all
  with assms f d(4)
  show "\<exists>sm' s'. submit_review sm review_id agent verdict feedback uid now = Inr (Some ?r', sm')
               \<and> st sm' = Some s' \<and> find ?P (reviews s') = Some ?r'"
    by (simp add: submit_review_def submit_loop_find send_message_def Let_def save_def
                  append_to_log_def)
qed

text \<open>
  A review requested by COPILOT from CODEX: a verdict from CLAUDE, from the requester
  COPILOT, or for an unknown id is rejected; the verdict of CODEX is accepted and stored.
\<close>

theorem submit_review_gate_witness:
  "st (manager_after session_review) \<noteq> None
   \<and> rejected (submit_review (manager_after session_review) ''r1'' CLAUDE ''APPROVED'' ''ok''
                 ''m2'' 2)
   \<and> rejected (submit_review (manager_after session_review) ''r1'' COPILOT ''APPROVED'' ''ok''
                 ''m2'' 2)
   \<and> rejected (submit_review (manager_after session_review) ''zz'' CODEX ''APPROVED'' ''ok''
                 ''m2'' 2)
   \<and> succeeded (submit_review (manager_after session_review) ''r1'' CODEX ''APPROVED'' ''ok''
                  ''m2'' 2)
   \<and> map_option r_verdict
        (value_of (submit_review (manager_after session_review) ''r1'' CODEX ''APPROVED'' ''ok''
                     ''m2'' 2)) = Some (Some ''APPROVED'')"
proof -
  have h: "st (manager_after session_review) = Some (the (st (manager_after session_review)))"
    by (simp add: eval_defs session_defs)
  have rs: "reviews (the (st (manager_after session_review))) =
              [\<lparr>r_id = ''r1'', r_timestamp = 1, r_from_agent = COPILOT, r_to_agent = CODEX,
                r_task_id = None, r_content = ''review diff'', r_files = [],
                r_verdict = None, r_feedback = None\<rparr>]"
    by (simp add: eval_defs session_defs)
  have n: "st (manager_after session_review) \<noteq> None"
    using h by auto
  have r1: "rejected (submit_review (manager_after session_review) ''r1'' CLAUDE ''APPROVED''
                        ''ok'' ''m2'' 2)"
    using submit_review_gate [OF h, of "''r1''" CLAUDE "''APPROVED''" "''ok''" "''m2''" 2]
    by (simp add: rs)
  have r2: "rejected (submit_review (manager_after session_review) ''r1'' COPILOT ''APPROVED''
                        ''ok'' ''m2'' 2)"
    using submit_review_gate [OF h, of "''r1''" COPILOT "''APPROVED''" "''ok''" "''m2''" 2]
    by (simp add: rs)
  have r3: "rejected (submit_review (manager_after session_review) ''zz'' CODEX ''APPROVED''
                        ''ok'' ''m2'' 2)"
    using submit_review_gate [OF h, of "''zz''" CODEX "''APPROVED''" "''ok''" "''m2''" 2]
    by (simp add: rs)
  have ok: "succeeded (submit_review (manager_after session_review) ''r1'' CODEX ''APPROVED''
                         ''ok'' ''m2'' 2)
          \<and> map_option r_verdict
               (value_of (submit_review (manager_after session_review) ''r1'' CODEX ''APPROVED''
                            ''ok'' ''m2'' 2)) = Some (Some ''APPROVED'')"
    using submit_review_gate [OF h, of "''r1''" CODEX "''APPROVED''" "''ok''" "''m2''" 2]
    by (auto simp: rs value_of_def)
  from n r1 r2 r3 ok show ?thesis by simp
qed

text \<open>
  C4 as stated fails: the review addressed to CODEX already holds the verdict
  \<open>APPROVED\<close>, and a second verdict of CODEX is accepted and replaces it.
\<close>

theorem verdict_overwritten_counterexample:
  "map_option (map r_to_agent \<circ> reviews) (st (manager_after session_reviewed)) = Some [CODEX]
   \<and> map_option (map r_verdict \<circ> reviews) (st (manager_after session_reviewed))
       = Some [Some ''APPROVED'']
   \<and> succeeded (submit_review (manager_after session_reviewed) ''r1'' CODEX ''REJECTED'' ''no''
                  ''m3'' 3)
   \<and> map_option r_verdict
        (value_of (submit_review (manager_after session_reviewed) ''r1'' CODEX ''REJECTED'' ''no''
                     ''m3'' 3)) = Some (Some ''REJECTED'')
   \<and> map_option (map r_verdict \<circ> reviews)
        (state_after (submit_review (manager_after session_reviewed) ''r1'' CODEX ''REJECTED''
                        ''no'' ''m3'' 3)) = Some [Some ''REJECTED'']"
  by (simp add: eval_defs session_defs)

section \<open>The inbox\<close>

text \<open>
  C5. With the manager initialised, \<open>get_inbox\<close> returns exactly the messages whose
  \<open>to_agent\<close> is the agent or absent and whose \<open>from_agent\<close> is not the agent, in the
  order of the message list, restricted to the messages not yet read when \<open>unread_only\<close>
  is set; the manager it leaves behind is the manager it was called on. Hence a message
  with no \<open>to_agent\<close> is in the full inbox of an agent exactly when the agent is not its
  sender.
\<close>

theorem get_inbox_contents:
  assumes "st sm = Some s"
  shows "get_inbox sm agent unread_only =
           Inr (filter (\<lambda>m. (m_to_agent m = Some agent \<or> m_to_agent m = None)
                             \<and> m_from_agent m \<noteq> agent
                             \<and> (unread_only \<longrightarrow> \<not> m_read m)) (messages s), sm)
       \<and> (\<forall>m \<in> set (messages s). m_to_agent m = None \<longrightarrow>
            (\<exists>inbox. get_inbox sm agent False = Inr (inbox, sm)
                     \<and> (m \<in> set inbox \<longleftrightarrow> m_from_agent m \<noteq> agent)))"
  using assms by (auto simp: get_inbox_def inbox_loop_filter)

text \<open>
  After a broadcast of CLAUDE and a message of GEMINI to CLAUDE that was marked read:
  the broadcast is in the inbox of GEMINI and not in that of CLAUDE, the read message
  shows in the inbox of CLAUDE only when read messages are asked for, and reading the
  inbox leaves the manager as it was.
\<close>

theorem get_inbox_contents_witness:
  "st (manager_after session_messages) \<noteq> None
   \<and> map_option (map m_id) (returned (get_inbox (manager_after session_messages) GEMINI True))
       = Some [''m1'']
   \<and> map_option (map m_id) (returned (get_inbox (manager_after session_messages) CLAUDE True))
       = Some []
   \<and> map_option (map m_id) (returned (get_inbox (manager_after session_messages) CLAUDE False))
       = Some [''m2'']
   \<and> after (get_inbox (manager_after session_messages) CLAUDE False)
       = Inr (manager_after session_messages)"
proof -
  have h: "st (manager_after session_messages)
             = Some (the (st (manager_after session_messages)))"
    by (simp add: eval_defs session_defs)
  have ms: "messages (the (st (manager_after session_messages))) =
              [\<lparr>m_id = ''m1'', m_timestamp = 1, m_from_agent = CLAUDE, m_to_agent = None,
                m_message_type = BROADCAST, m_content = ''hello'', m_priority = NORMAL,
                m_in_reply_to = None, m_read = False\<rparr>,
               \<lparr>m_id = ''m2'', m_timestamp = 2, m_from_agent = GEMINI,
                m_to_agent = Some CLAUDE, m_message_type = RESPONSE, m_content = ''hi'',
                m_priority = NORMAL, m_in_reply_to = Some ''m1'', m_read = True\<rparr>]"
    by (simp add: eval_defs session_defs)
  have n: "st (manager_after session_messages) \<noteq> None"
    using h by auto
  have a: "map_option (map m_id)
             (returned (get_inbox (manager_after session_messages) GEMINI True)) = Some [''m1'']"
    using get_inbox_contents [OF h, of GEMINI True] by (simp add: ms returned_def)
  have b: "map_option (map m_id)
             (returned (get_inbox (manager_after session_messages) CLAUDE True)) = Some []"
    using get_inbox_contents [OF h, of CLAUDE True] by (simp add: ms returned_def)
  have c: "map_option (map m_id)
             (returned (get_inbox (manager_after session_messages) CLAUDE False)) = Some [''m2'']"
    using get_inbox_contents [OF h, of CLAUDE False] by (simp add: ms returned_def)
  have d: "after (get_inbox (manager_after session_messages) CLAUDE False)
             = Inr (manager_after session_messages)"
    using get_inbox_contents [OF h, of CLAUDE False] by (simp add: after_def)
  from n a b c d show ?thesis by simp
qed

section \<open>Casting a vote\<close>

text \<open>
  C6. With the manager initialised: when no vote has the topic, \<open>cast_vote\<close> is rejected.
  When exactly one vote has the topic, \<open>cast_vote\<close> is rejected if and only if the choice
  is not among the options of that vote; on a valid choice it returns the vote with the
  entry of the agent set to the choice, that vote is the one with the topic in the state
  kept and saved, and a further valid cast by the same agent replaces the entry, so that
  the vote map holds the entries it had before and one entry for the agent.
\<close>

theorem cast_vote_validity:
  assumes "st sm = Some s"
  shows "(filter (\<lambda>x. v_topic x = topic) (active_votes s) = [] \<longrightarrow>
            rejected (cast_vote sm topic agent choice))
       \<and> (\<forall>v. filter (\<lambda>x. v_topic x = topic) (active_votes s) = [v] \<longrightarrow>
            (rejected (cast_vote sm topic agent choice) \<longleftrightarrow> choice \<notin> set (v_options v))
            \<and> (choice \<in> set (v_options v) \<longrightarrow>
                 (\<exists>sm' s'.
                    cast_vote sm topic agent choice =
                      Inr (Some (v\<lparr>v_votes := (v_votes v)(agent_value agent \<mapsto> choice)\<rparr>), sm')
                    \<and> st sm' = Some s' \<and> state_file sm' = Some s'
                    \<and> filter (\<lambda>x. v_topic x = topic) (active_votes s') =
                        [v\<lparr>v_votes := (v_votes v)(agent_value agent \<mapsto> choice)\<rparr>]
                    \<and> (\<forall>again. again \<in> set (v_options v) \<longrightarrow>
                          (\<exists>sm''. cast_vote sm' topic agent again =
                             Inr (Some (v\<lparr>v_votes := (v_votes v)(agent_value agent \<mapsto> again)\<rparr>),
                                  sm''))))))"
proof (intro conjI allI impI)
  assume "filter (\<lambda>x. v_topic x = topic) (active_votes s) = []"
  then have "\<forall>y\<in>set (active_votes s). v_topic y \<noteq> topic"
    by (simp add: filter_empty_conv)
  then have "find (\<lambda>x. v_topic x = topic \<and> choice \<in> set (v_options x)) (active_votes s) = None"
    by (auto simp: find_None_iff)
  with assms show "rejected (cast_vote sm topic agent choice)"
    by (simp add: cast_vote_def cast_loop_find)
next
  fix v assume one: "filter (\<lambda>x. v_topic x = topic) (active_votes s) = [v]"
  from assms single_topic_find[OF one, of choice]
  show "rejected (cast_vote sm topic agent choice) \<longleftrightarrow> choice \<notin> set (v_options v)"
    by (simp add: cast_vote_def cast_loop_find)
next
  fix v assume one: "filter (\<lambda>x. v_topic x = topic) (active_votes s) = [v]"
    and valid: "choice \<in> set (v_options v)"
  let ?v' = "v\<lparr>v_votes := (v_votes v)(agent_value agent \<mapsto> choice)\<rparr>"
  from cast_vote_single[OF assms one valid, of agent] obtain sm' s' where
    first: "cast_vote sm topic agent choice = Inr (Some ?v', sm')"
      "st sm' = Some s'" "state_file sm' = Some s'"
      "filter (\<lambda>x. v_topic x = topic) (active_votes s') = [?v']"
    by blast
  have "\<exists>sm''. cast_vote sm' topic agent again =
                 Inr (Some (v\<lparr>v_votes := (v_votes v)(agent_value agent \<mapsto> again)\<rparr>), sm'')"
    if "again \<in> set (v_options v)" for again
  proof -
    from that have "again \<in> set (v_options ?v')" by simp
    from cast_vote_single[OF first(2) first(4) this, of agent]
    show ?thesis by auto
  qed
  with first
  show "\<exists>sm' s'. cast_vote sm topic agent choice = Inr (Some ?v', sm')
                \<and> st sm' = Some s' \<and> state_file sm' = Some s'
                \<and> filter (\<lambda>x. v_topic x = topic) (active_votes s') = [?v']
                \<and> (\<forall>again. again \<in> set (v_options v) \<longrightarrow>
                      (\<exists>sm''. cast_vote sm' topic agent again =
                         Inr (Some (v\<lparr>v_votes := (v_votes v)(agent_value agent \<mapsto> again)\<rparr>),
                              sm'')))"
    by blast
qed

text \<open>
  The vote on \<open>lang\<close> with the options \<open>go\<close> and \<open>rust\<close>: \<open>python\<close> is rejected, as is any
  choice for a topic without a vote; \<open>go\<close> from GEMINI is recorded, and \<open>rust\<close> from
  GEMINI afterwards replaces it.
\<close>

theorem cast_vote_validity_witness:
  "st (manager_after session_vote) \<noteq> None
   \<and> rejected (cast_vote (manager_after session_vote) ''lang'' CODEX ''python'')
   \<and> rejected (cast_vote (manager_after session_vote) ''editor'' GEMINI ''go'')
   \<and> succeeded (cast_vote (manager_after session_vote) ''lang'' GEMINI ''go'')
   \<and> map_option (choice_of GEMINI)
        (value_of (cast_vote (manager_after session_vote) ''lang'' GEMINI ''go''))
       = Some (Some ''go'')
   \<and> map_option (choice_of GEMINI)
        (value_of (cast_vote (manager_after session_voted) ''lang'' GEMINI ''rust''))
       = Some (Some ''rust'')"
proof -
  let ?v = "\<lparr>v_topic = ''lang'', v_options = [''go'', ''rust''], v_votes = Map.empty,
             v_deadline = None, v_result = None\<rparr>"
  have h: "st (manager_after session_vote) = Some (the (st (manager_after session_vote)))"
    by (simp add: eval_defs session_defs)
  have vs: "active_votes (the (st (manager_after session_vote))) = [?v]"
    by (simp add: eval_defs session_defs)
  have h2: "st (manager_after session_voted) = Some (the (st (manager_after session_voted)))"
    by (simp add: eval_defs session_defs)
  have vs2: "active_votes (the (st (manager_after session_voted))) =
               [?v\<lparr>v_votes := Map.empty(''gemini'' \<mapsto> ''go'')\<rparr>]"
    by (simp add: eval_defs session_defs)
  have n: "st (manager_after session_vote) \<noteq> None"
    using h by auto
  have r1: "rejected (cast_vote (manager_after session_vote) ''lang'' CODEX ''python'')"
    using cast_vote_validity [OF h, of "''lang''" CODEX "''python''"] by (simp add: vs)
  have r2: "rejected (cast_vote (manager_after session_vote) ''editor'' GEMINI ''go'')"
    using cast_vote_validity [OF h, of "''editor''" GEMINI "''go''"] by (simp add: vs)
  have ok: "succeeded (cast_vote (manager_after session_vote) ''lang'' GEMINI ''go'')
          \<and> map_option (choice_of GEMINI)
               (value_of (cast_vote (manager_after session_vote) ''lang'' GEMINI ''go''))
              = Some (Some ''go'')"
    using cast_vote_validity [OF h, of "''lang''" GEMINI "''go''"]
    by (auto simp: vs value_of_def choice_of_def)
  have again: "map_option (choice_of GEMINI)
                 (value_of (cast_vote (manager_after session_voted) ''lang'' GEMINI ''rust''))
                = Some (Some ''rust'')"
    using cast_vote_validity [OF h2, of "''lang''" GEMINI "''rust''"]
    by (auto simp: vs2 value_of_def choice_of_def)
  from n r1 r2 ok again show ?thesis by simp
qed

section \<open>Votes that share a topic\<close>

text \<open>
  C7, as the code has it. With the manager initialised, \<open>cast_vote\<close> is rejected exactly
  when no vote has the topic and offers the choice. Otherwise the cast lands in the first
  vote of the list that has the topic and offers the choice: the votes before it, among
  them votes with the topic that do not offer the choice, and all the votes after it stay
  as they were. So a vote created first receives the cast when it offers the choice, and
  a later vote with the same topic receives it when the earlier ones do not.
\<close>

theorem cast_vote_first_offering:
  assumes "st sm = Some s"
  shows "(rejected (cast_vote sm topic agent choice) \<longleftrightarrow>
            \<not> (\<exists>x\<in>set (active_votes s). v_topic x = topic \<and> choice \<in> set (v_options x)))
       \<and> (\<forall>pre v post.
            active_votes s = pre @ v # post
            \<and> (\<forall>x\<in>set pre. \<not> (v_topic x = topic \<and> choice \<in> set (v_options x)))
            \<and> v_topic v = topic \<and> choice \<in> set (v_options v) \<longrightarrow>
            cast_vote sm topic agent choice =
              Inr (Some (v\<lparr>v_votes := (v_votes v)(agent_value agent \<mapsto> choice)\<rparr>),
                   sm\<lparr>st := Some (s\<lparr>active_votes :=
                          pre @ v\<lparr>v_votes := (v_votes v)(agent_value agent \<mapsto> choice)\<rparr> # post\<rparr>),
                      state_file := Some (s\<lparr>active_votes :=
                          pre @ v\<lparr>v_votes := (v_votes v)(agent_value agent \<mapsto> choice)\<rparr> # post\<rparr>)\<rparr>))"
proof (intro conjI allI impI)
  let ?P = "\<lambda>x. v_topic x = topic \<and> choice \<in> set (v_options x)"
  show "rejected (cast_vote sm topic agent choice) \<longleftrightarrow> \<not> (\<exists>x\<in>set (active_votes s). ?P x)"
    using assms find_is_Some_iff [of ?P "active_votes s"]
    by (cases "find ?P (active_votes s)") (auto simp: cast_vote_def cast_loop_find)
next
  fix pre v post
  let ?P = "\<lambda>x. v_topic x = topic \<and> choice \<in> set (v_options x)"
  assume a: "active_votes s = pre @ v # post \<and> (\<forall>x\<in>set pre. \<not> ?P x)
               \<and> v_topic v = topic \<and> choice \<in> set (v_options v)"
  have f: "find ?P (pre @ v # post) = Some v"
    using a by (intro find_append_first) simp_all
  have r: "replace_first ?P y (pre @ v # post) = pre @ y # post" for y
    using a by (intro replace_first_append) simp_all
  from assms a f r
  show "cast_vote sm topic agent choice =
          Inr (Some (v\<lparr>v_votes := (v_votes v)(agent_value agent \<mapsto> choice)\<rparr>),
               sm\<lparr>st := Some (s\<lparr>active_votes :=
                      pre @ v\<lparr>v_votes := (v_votes v)(agent_value agent \<mapsto> choice)\<rparr> # post\<rparr>),
                  state_file := Some (s\<lparr>active_votes :=
                      pre @ v\<lparr>v_votes := (v_votes v)(agent_value agent \<mapsto> choice)\<rparr> # post\<rparr>)\<rparr>)"
    by (simp add: cast_vote_def cast_loop_find save_def)
qed

text \<open>
  Two votes on \<open>lang\<close>, the first offering \<open>go\<close> and the second \<open>rust\<close>: \<open>python\<close> is
  rejected, \<open>go\<close> from GEMINI is recorded in the first vote only, and \<open>rust\<close> from GEMINI
  in the second only.
\<close>

theorem cast_vote_first_offering_witness:
  "st (manager_after session_duplicate_votes) \<noteq> None
   \<and> rejected (cast_vote (manager_after session_duplicate_votes) ''lang'' GEMINI ''python'')
   \<and> map_option (map (choice_of GEMINI) \<circ> active_votes)
        (state_after (cast_vote (manager_after session_duplicate_votes) ''lang'' GEMINI ''go''))
       = Some [Some ''go'', None]
   \<and> map_option (map (choice_of GEMINI) \<circ> active_votes)
        (state_after (cast_vote (manager_after session_duplicate_votes) ''lang'' GEMINI ''rust''))
       = Some [None, Some ''rust'']"
proof -
  let ?go = "\<lparr>v_topic = ''lang'', v_options = [''go''], v_votes = Map.empty,
              v_deadline = None, v_result = None\<rparr>"
  let ?rust = "\<lparr>v_topic = ''lang'', v_options = [''rust''], v_votes = Map.empty,
                v_deadline = None, v_result = None\<rparr>"
  have h: "st (manager_after session_duplicate_votes)
             = Some (the (st (manager_after session_duplicate_votes)))"
    by (simp add: eval_defs session_defs)
  have vs: "active_votes (the (st (manager_after session_duplicate_votes))) = [?go, ?rust]"
    by (simp add: eval_defs session_defs)
  have n: "st (manager_after session_duplicate_votes) \<noteq> None"
    using h by auto
  note gate = cast_vote_first_offering [OF h]
  have r: "rejected (cast_vote (manager_after session_duplicate_votes) ''lang'' GEMINI ''python'')"
    using gate [of "''lang''" GEMINI "''python''"] by (simp add: vs)
  have "active_votes (the (st (manager_after session_duplicate_votes))) = [] @ ?go # [?rust]
          \<and> (\<forall>x\<in>set []. \<not> (v_topic x = ''lang'' \<and> ''go'' \<in> set (v_options x)))
          \<and> v_topic ?go = ''lang'' \<and> ''go'' \<in> set (v_options ?go)"
    by (simp add: vs)
  from gate [of "''lang''" GEMINI "''go''", THEN conjunct2, rule_format,
             of "[]" ?go "[?rust]", OF this]
  have a: "map_option (map (choice_of GEMINI) \<circ> active_votes)
             (state_after (cast_vote (manager_after session_duplicate_votes) ''lang'' GEMINI ''go''))
            = Some [Some ''go'', None]"
    by (simp add: state_after_def choice_of_def)
  have "active_votes (the (st (manager_after session_duplicate_votes))) = [?go] @ ?rust # []
          \<and> (\<forall>x\<in>set [?go]. \<not> (v_topic x = ''lang'' \<and> ''rust'' \<in> set (v_options x)))
          \<and> v_topic ?rust = ''lang'' \<and> ''rust'' \<in> set (v_options ?rust)"
    by (simp add: vs)
  from gate [of "''lang''" GEMINI "''rust''", THEN conjunct2, rule_format,
             of "[?go]" ?rust "[]", OF this]
  have b: "map_option (map (choice_of GEMINI) \<circ> active_votes)
             (state_after (cast_vote (manager_after session_duplicate_votes) ''lang'' GEMINI ''rust''))
            = Some [None, Some ''rust'']"
    by (simp add: state_after_def choice_of_def)
  from n r a b show ?thesis by simp
qed

text \<open>
  C7 as stated fails: the vote created first does not offer \<open>rust\<close>, and the cast of
  \<open>rust\<close> is accepted and recorded in the vote created second.
\<close>

theorem cast_vote_later_duplicate_counterexample:
  "map_option (map v_topic \<circ> active_votes) (st (manager_after session_duplicate_votes))
     = Some [''lang'', ''lang'']
   \<and> map_option (map v_options \<circ> active_votes) (st (manager_after session_duplicate_votes))
     = Some [[''go''], [''rust'']]
   \<and> succeeded (cast_vote (manager_after session_duplicate_votes) ''lang'' GEMINI ''rust'')
   \<and> map_option v_options
        (value_of (cast_vote (manager_after session_duplicate_votes) ''lang'' GEMINI ''rust''))
     = Some [''rust'']
   \<and> map_option (map (choice_of GEMINI) \<circ> active_votes)
        (state_after (cast_vote (manager_after session_duplicate_votes) ''lang'' GEMINI ''rust''))
     = Some [None, Some ''rust'']"
  by (simp add: eval_defs session_defs)

section \<open>Claiming a task again\<close>

text \<open>
  C8, as the code has it. When the task that \<open>get_task\<close> finds is already claimed by the
  calling agent and every dependency id that resolves to a task resolves to a completed
  one, \<open>claim_task\<close> succeeds, and it is a transition like the first claim: the task keeps
  its \<open>claimed_by\<close> and every other field except that its status is set to
  \<open>in_progress\<close> and its \<open>updated_at\<close> to the current time; the other tasks and the
  rest of the conversation state stay as they were, the state is saved and a block is
  appended to the transcript.
\<close>

theorem reclaim_by_holder:
  assumes "st sm = Some s"
      and "find_task (tasks s) task_id = Some t"
      and "t_claimed_by t = Some agent"
      and "\<forall>d\<in>set (t_dependencies t). \<forall>dt.
             find_task (tasks s) d = Some dt \<longrightarrow> t_status dt = COMPLETED"
  shows "\<exists>pre post.
           tasks s = pre @ t # post \<and> (\<forall>x\<in>set pre. t_id x \<noteq> task_id)
           \<and> claim_task sm task_id agent now =
               Inr (Some (t\<lparr>t_status := IN_PROGRESS, t_updated_at := now\<rparr>),
                    sm\<lparr>st := Some (s\<lparr>tasks :=
                                       pre @ t\<lparr>t_status := IN_PROGRESS, t_updated_at := now\<rparr> # post\<rparr>),
                       state_file := Some (s\<lparr>tasks :=
                                       pre @ t\<lparr>t_status := IN_PROGRESS, t_updated_at := now\<rparr> # post\<rparr>),
                       conversation_log :=
                         conversation_log sm @ [Log_task_claimed task_id agent]\<rparr>)"
proof -
  let ?t' = "t\<lparr>t_status := IN_PROGRESS, t_updated_at := now\<rparr>"
  from assms(2) have "find (\<lambda>x. t_id x = task_id) (tasks s) = Some t"
    by (simp add: find_task_find)
  from find_split[OF this] obtain pre post where
    d: "tasks s = pre @ t # post" "\<forall>z\<in>set pre. t_id z \<noteq> task_id"
       "\<forall>y. replace_first (\<lambda>x. t_id x = task_id) y (tasks s) = pre @ y # post"
    by blast
  have same: "t\<lparr>t_claimed_by := Some agent, t_status := IN_PROGRESS, t_updated_at := now\<rparr> = ?t'"
    using assms(3) by (intro task.equality) simp_all
  have free: "\<not> dependency_blocks (tasks s) (t_dependencies t)"
    using assms(4) by (auto simp: dependency_blocks_iff)
  have "claim_task sm task_id agent now =
          Inr (Some ?t',
               sm\<lparr>st := Some (s\<lparr>tasks := pre @ ?t' # post\<rparr>),
                  state_file := Some (s\<lparr>tasks := pre @ ?t' # post\<rparr>),
                  conversation_log := conversation_log sm @ [Log_task_claimed task_id agent]\<rparr>)"
    using assms(1,2,3) free d(3) same
    by (simp add: claim_task_def claim_loop_find Let_def save_def append_to_log_def)
  with d(1,2) show ?thesis by blast
qed

text \<open>
  Task \<open>b\<close>, held by CLAUDE since time 5 and depending on the completed \<open>a\<close>, is claimed
  by CLAUDE again at time 9: the call succeeds and returns \<open>b\<close> in progress, held by
  CLAUDE, updated at 9.
\<close>

theorem reclaim_by_holder_witness:
  "st (manager_after session_held) \<noteq> None
   \<and> map_option t_claimed_by (value_of (get_task (manager_after session_held) ''b''))
       = Some (Some CLAUDE)
   \<and> succeeded (claim_task (manager_after session_held) ''b'' CLAUDE 9)
   \<and> map_option t_claimed_by (value_of (claim_task (manager_after session_held) ''b'' CLAUDE 9))
       = Some (Some CLAUDE)
   \<and> map_option t_status (value_of (claim_task (manager_after session_held) ''b'' CLAUDE 9))
       = Some IN_PROGRESS
   \<and> map_option t_updated_at (value_of (claim_task (manager_after session_held) ''b'' CLAUDE 9))
       = Some 9"
proof -
  let ?b = "\<lparr>t_id = ''b'', t_created_at = 2, t_updated_at = 5, t_title = ''B'',
             t_description = ''second'', t_status = IN_PROGRESS, t_created_by = CLAUDE,
             t_assigned_to = None, t_claimed_by = Some CLAUDE, t_dependencies = [''a''],
             t_result = None, t_files_modified = []\<rparr>"
  have h: "st (manager_after session_held) = Some (the (st (manager_after session_held)))"
    by (simp add: eval_defs session_defs)
  have ts: "tasks (the (st (manager_after session_held))) =
              [\<lparr>t_id = ''a'', t_created_at = 1, t_updated_at = 4, t_title = ''A'',
                t_description = ''first'', t_status = COMPLETED, t_created_by = CLAUDE,
                t_assigned_to = None, t_claimed_by = Some GEMINI, t_dependencies = [],
                t_result = Some ''done'', t_files_modified = []\<rparr>, ?b]"
    by (simp add: eval_defs session_defs)
  have n: "st (manager_after session_held) \<noteq> None"
    using h by auto
  have g: "map_option t_claimed_by (value_of (get_task (manager_after session_held) ''b''))
             = Some (Some CLAUDE)"
    by (simp add: eval_defs session_defs)
  have f: "find_task (tasks (the (st (manager_after session_held)))) ''b'' = Some ?b"
    by (simp add: ts)
  have c: "t_claimed_by ?b = Some CLAUDE"
    by simp
  have d: "\<forall>d\<in>set (t_dependencies ?b). \<forall>dt.
             find_task (tasks (the (st (manager_after session_held)))) d = Some dt
               \<longrightarrow> t_status dt = COMPLETED"
    by (auto simp: ts)
  from reclaim_by_holder [OF h f c d, of 9] obtain sm' where
    eq: "claim_task (manager_after session_held) ''b'' CLAUDE 9 =
           Inr (Some (?b\<lparr>t_status := IN_PROGRESS, t_updated_at := 9\<rparr>), sm')"
    by blast
  from n g show ?thesis
    by (simp add: eq value_of_def)
qed

text \<open>
  C8 as stated fails. Task \<open>a\<close> is held by GEMINI and was last updated at time 3; when
  GEMINI claims it again at time 9 the call succeeds, the task returned is updated at 9
  and the manager is not the one before the call. And where \<open>a\<close> was completed, the same
  call puts it back in progress.
\<close>

theorem reclaim_changes_task_counterexample:
  "map_option t_claimed_by (value_of (get_task (manager_after session_claimed) ''a''))
     = Some (Some GEMINI)
   \<and> map_option t_updated_at (value_of (get_task (manager_after session_claimed) ''a''))
     = Some 3
   \<and> succeeded (claim_task (manager_after session_claimed) ''a'' GEMINI 9)
   \<and> map_option t_updated_at (value_of (claim_task (manager_after session_claimed) ''a'' GEMINI 9))
     = Some 9
   \<and> after (claim_task (manager_after session_claimed) ''a'' GEMINI 9)
     \<noteq> Inr (manager_after session_claimed)
   \<and> map_option t_status (value_of (get_task (manager_after session_completed) ''a''))
     = Some COMPLETED
   \<and> map_option t_status (value_of (claim_task (manager_after session_completed) ''a'' GEMINI 9))
     = Some IN_PROGRESS"
  by (simp add: eval_defs session_defs)

section \<open>A rejected call changes nothing\<close>

text \<open>
  C10. Whenever \<open>claim_task\<close>, \<open>complete_task\<close>, \<open>submit_review\<close> or \<open>cast_vote\<close> returns
  \<open>None\<close>, the manager after the call is the manager before it: the conversation state,
  the state file and the transcript are all as they were, so no field was modified and
  nothing was written.
\<close>

theorem rejection_changes_nothing:
  "(rejected (claim_task sm task_id agent now) \<longrightarrow>
      claim_task sm task_id agent now = Inr (None, sm))
   \<and> (rejected (complete_task sm task_id agent res files now) \<longrightarrow>
      complete_task sm task_id agent res files now = Inr (None, sm))
   \<and> (rejected (submit_review sm review_id agent verdict feedback uid now) \<longrightarrow>
      submit_review sm review_id agent verdict feedback uid now = Inr (None, sm))
   \<and> (rejected (cast_vote sm topic agent choice) \<longrightarrow>
      cast_vote sm topic agent choice = Inr (None, sm))"
proof (intro conjI impI)
  assume "rejected (claim_task sm task_id agent now)"
  then show "claim_task sm task_id agent now = Inr (None, sm)"
    by (auto simp: claim_task_def Let_def split: option.splits)
next
  assume "rejected (complete_task sm task_id agent res files now)"
  then show "complete_task sm task_id agent res files now = Inr (None, sm)"
    by (auto simp: complete_task_def Let_def split: option.splits)
next
  assume "rejected (submit_review sm review_id agent verdict feedback uid now)"
  then show "submit_review sm review_id agent verdict feedback uid now = Inr (None, sm)"
    by (auto simp: submit_review_def Let_def split: option.splits sum.splits)
next
  assume "rejected (cast_vote sm topic agent choice)"
  then show "cast_vote sm topic agent choice = Inr (None, sm)"
    by (auto simp: cast_vote_def Let_def split: option.splits)
qed

text \<open>
  Four rejected calls: a claim and a completion of a task that another agent holds, a
  verdict from an agent the review is not addressed to, and a choice that is not an
  option of the vote. Each leaves the manager it was called on.
\<close>

theorem rejection_changes_nothing_witness:
  "rejected (claim_task (manager_after session_claimed) ''a'' CLAUDE 9)
   \<and> after (claim_task (manager_after session_claimed) ''a'' CLAUDE 9)
       = Inr (manager_after session_claimed)
   \<and> rejected (complete_task (manager_after session_claimed) ''a'' CLAUDE ''mine'' None 9)
   \<and> after (complete_task (manager_after session_claimed) ''a'' CLAUDE ''mine'' None 9)
       = Inr (manager_after session_claimed)
   \<and> rejected (submit_review (manager_after session_review) ''r1'' CLAUDE ''APPROVED'' ''ok''
                 ''m9'' 9)
   \<and> after (submit_review (manager_after session_review) ''r1'' CLAUDE ''APPROVED'' ''ok''
              ''m9'' 9)
       = Inr (manager_after session_review)
   \<and> rejected (cast_vote (manager_after session_vote) ''lang'' CODEX ''python'')
   \<and> after (cast_vote (manager_after session_vote) ''lang'' CODEX ''python'')
       = Inr (manager_after session_vote)"
proof -
  have r1: "rejected (claim_task (manager_after session_claimed) ''a'' CLAUDE 9)"
    by (simp add: eval_defs session_defs)
  have r2: "rejected (complete_task (manager_after session_claimed) ''a'' CLAUDE ''mine'' None 9)"
    by (simp add: eval_defs session_defs)
  have r3: "rejected (submit_review (manager_after session_review) ''r1'' CLAUDE ''APPROVED''
                        ''ok'' ''m9'' 9)"
    by (simp add: eval_defs session_defs)
  have r4: "rejected (cast_vote (manager_after session_vote) ''lang'' CODEX ''python'')"
    by (simp add: eval_defs session_defs)
  note unchanged = rejection_changes_nothing
    [where sm = "manager_after session_claimed" and task_id = "''a''" and agent = CLAUDE
       and now = 9 and res = "''mine''" and files = None]
  note unchanged_review = rejection_changes_nothing
    [where sm = "manager_after session_review" and review_id = "''r1''" and agent = CLAUDE
       and verdict = "''APPROVED''" and feedback = "''ok''" and uid = "''m9''" and now = 9]
  note unchanged_vote = rejection_changes_nothing
    [where sm = "manager_after session_vote" and topic = "''lang''" and agent = CODEX
       and choice = "''python''"]
  have a1: "after (claim_task (manager_after session_claimed) ''a'' CLAUDE 9)
              = Inr (manager_after session_claimed)"
    using unchanged r1 by (simp add: after_def)
  have a2: "after (complete_task (manager_after session_claimed) ''a'' CLAUDE ''mine'' None 9)
              = Inr (manager_after session_claimed)"
    using unchanged r2 by (simp add: after_def)
  have a3: "after (submit_review (manager_after session_review) ''r1'' CLAUDE ''APPROVED''
                     ''ok'' ''m9'' 9)
              = Inr (manager_after session_review)"
    using unchanged_review r3 by (simp add: after_def)
  have a4: "after (cast_vote (manager_after session_vote) ''lang'' CODEX ''python'')
              = Inr (manager_after session_vote)"
    using unchanged_vote r4 by (simp add: after_def)
  from r1 r2 r3 r4 a1 a2 a3 a4 show ?thesis by simp
qed

end
